theory Spec2Isabelle
  imports
    Main
    "HOL-Library.Word"
    "HOL-Library.Char_ord"
    "HOL-Library.List_Lexorder"
    "HOL-Library.Signed_Division"
begin

unbundle bit_operations_syntax

section \<open>Configuration (core/ConfigParser.h)\<close>

text \<open>
  The configuration structs, field by field. A field of C++ type \<open>int\<close> holds a
  32-bit value and is carried as an \<open>int\<close>. Arithmetic on such fields is written
  out at the width the source computes it in: \<open>setMemoryLimits\<close> widens
  \<open>memory_mb\<close> to \<open>long long\<close> before multiplying, which cannot overflow for any
  32-bit input, while \<open>setCpuLimits\<close> multiplies in \<open>int\<close> and widens the product
  afterwards, so that product wraps at 32 bits. Integer division is the truncating
  \<open>sdiv\<close>. Fields of \<open>AIModuleConfig\<close> and \<open>LoggingConfig\<close> that no modelled
  function reads are left out.
\<close>

record UIDMap =
  host_uid :: int
  container_uid :: int
  uid_count :: int

record GIDMap =
  host_gid :: int
  container_gid :: int
  gid_count :: int

record BindMount =
  source :: string
  target :: string
  read_only :: bool

record SandboxConfig =
  name :: string
  hostname :: string
  rootfs_path :: string
  command :: "string list"
  auto_bootstrap :: bool
  distro :: string
  release :: string

record ResourcesConfig =
  memory_mb :: int
  cpu_quota_percent :: int
  max_pids :: int
  enable_swap :: bool

record IsolationConfig =
  namespaces :: "string list"
  uid_map :: UIDMap
  gid_map :: GIDMap

record SecurityConfig =
  capabilities :: "string list"
  seccomp_policy :: string
  seccomp_profile_path :: string

record MountsConfig =
  bind_mounts :: "BindMount list"
  volumes :: "string list"

record AIModuleConfig =
  enabled :: bool
  api_key_env :: string

record SandboxConfiguration =
  sandbox :: SandboxConfig
  resources :: ResourcesConfig
  isolation :: IsolationConfig
  security :: SecurityConfig
  mounts :: MountsConfig
  ai_module :: AIModuleConfig

definition createDefaultConfig :: SandboxConfiguration where
  "createDefaultConfig =
     \<lparr> sandbox = \<lparr> name = ''sandbox-default'', hostname = ''sandbox-container'',
                   rootfs_path = ''/var/lib/sandbox/rootfs/ubuntu_focal'',
                   command = [''/bin/bash''], auto_bootstrap = False,
                   distro = ''ubuntu'', release = ''focal'' \<rparr>,
       resources = \<lparr> memory_mb = 512, cpu_quota_percent = 50, max_pids = 100,
                     enable_swap = False \<rparr>,
       isolation = \<lparr> namespaces = [''pid'', ''net'', ''ipc'', ''uts'', ''mount'', ''user''],
                     uid_map = \<lparr> host_uid = 1000, container_uid = 0, uid_count = 1 \<rparr>,
                     gid_map = \<lparr> host_gid = 1000, container_gid = 0, gid_count = 1 \<rparr> \<rparr>,
       security = \<lparr> capabilities = [], seccomp_policy = ''default'',
                    seccomp_profile_path = [] \<rparr>,
       mounts = \<lparr> bind_mounts = [\<lparr> source = ''/tmp'', target = ''/tmp'', read_only = False \<rparr>],
                  volumes = [] \<rparr>,
       ai_module = \<lparr> enabled = False, api_key_env = ''OPENAI_API_KEY'' \<rparr> \<rparr>"

section \<open>std::to_string\<close>

definition digit_char :: "nat \<Rightarrow> char" where
  "digit_char d = ''0123456789'' ! d"

function string_of_nat :: "nat \<Rightarrow> string" where
  "string_of_nat n =
     (if n < 10 then [digit_char n]
      else string_of_nat (n div 10) @ [digit_char (n mod 10)])"
  by pat_completeness auto
termination
  by (relation "measure id") auto

declare string_of_nat.simps [simp del]

definition to_string :: "int \<Rightarrow> string" where
  "to_string i = (if i < 0 then CHR ''-'' # string_of_nat (nat (- i)) else string_of_nat (nat i))"

section \<open>The operating system as seen by the code\<close>

text \<open>
  Every primitive the code can ask of its environment is a \<open>call\<close>: the wrappers of
  utils/Syscalls.h first, then the libc, libcap and libseccomp entry points that the
  modules and the engine use directly. A process's behaviour is the list of calls it
  made, oldest first. Whether a call succeeds is decided by the \<open>kernel\<close>, a function
  of the calls made so far and of the call itself, so that the same call may succeed
  once and fail later (the role of the syscall layer's in-memory fake).

  \<open>Clone\<close> (Syscall::cloneWithFlags), \<open>Unshare\<close> and \<open>Dup2\<close> belong to the
  alphabet although no modelled function issues them. \<open>Hook h n\<close> is not a system
  call: it marks the point where the engine enters hook \<open>h\<close> of the module named
  \<open>n\<close>, so that a trace also shows which module issued which calls.
\<close>

datatype filter_blob =
    EmptyBlob
  | ZeroedBlob
  | Bpf "32 word" "string list"

datatype prctl_arg =
    ArgName string
  | ArgFilter "32 word" filter_blob
  | ArgInt int

datatype hook = H_initialize | H_prepareChild | H_applyChild | H_cleanup

datatype call =
    Hook hook string
  | WriteFile string string
  | ReadFile string
  | MkdirRecursive string
  | RemoveRecursive string
  | Exists string
  | IsDirectory string
  | Mount string string string "64 word" "string option"
  | Unmount string "32 word"
  | PivotRoot string string
  | Chdir string
  | SetHostname string
  | Unshare "32 word"
  | Clone "32 word"
  | Fork
  | Pipe
  | Close int
  | Dup2 int int
  | Prctl "32 word" prctl_arg
  | Kill int int
  | Waitpid int
  | Read int
  | Getenv string
  | CurlInit
  | Debootstrap string string
  | CapGetProc
  | CapSetFlag "32 word" "int list"
  | CapSetProc
  | CapUpdateAmbient int
  | SeccompInit "32 word"
  | SeccompExportBpf bool
  | Execute "string list"

type_synonym trace = "call list"
type_synonym kernel = "trace \<Rightarrow> call \<Rightarrow> bool"

definition sys :: "kernel \<Rightarrow> call \<Rightarrow> trace \<Rightarrow> bool \<times> trace" where
  "sys k c t = (k t c, t @ [c])"

text \<open>Constants of the system headers that the code names.\<close>

definition MS_RDONLY :: "64 word" where "MS_RDONLY = 1"
definition MS_NOSUID :: "64 word" where "MS_NOSUID = 2"
definition MS_NODEV :: "64 word" where "MS_NODEV = 4"
definition MS_NOEXEC :: "64 word" where "MS_NOEXEC = 8"
definition MS_REMOUNT :: "64 word" where "MS_REMOUNT = 32"
definition MS_BIND :: "64 word" where "MS_BIND = 4096"
definition MS_REC :: "64 word" where "MS_REC = 16384"
definition MS_PRIVATE :: "64 word" where "MS_PRIVATE = 262144"
definition MS_STRICTATIME :: "64 word" where "MS_STRICTATIME = 16777216"
definition MNT_DETACH :: "32 word" where "MNT_DETACH = 2"

definition PR_SET_NAME :: "32 word" where "PR_SET_NAME = 15"
definition PR_SET_SECCOMP :: "32 word" where "PR_SET_SECCOMP = 22"
definition PR_SET_NO_NEW_PRIVS :: "32 word" where "PR_SET_NO_NEW_PRIVS = 38"
definition SECCOMP_MODE_FILTER :: "32 word" where "SECCOMP_MODE_FILTER = 2"

definition SECCOMP_RET_KILL :: "32 word" where "SECCOMP_RET_KILL = 0"
definition SECCOMP_RET_TRAP :: "32 word" where "SECCOMP_RET_TRAP = 0x00030000"
definition SECCOMP_RET_ERRNO :: "32 word" where "SECCOMP_RET_ERRNO = 0x00050000"
definition SECCOMP_RET_TRACE :: "32 word" where "SECCOMP_RET_TRACE = 0x7ff00000"
definition SECCOMP_RET_LOG :: "32 word" where "SECCOMP_RET_LOG = 0x7ffc0000"
definition SECCOMP_RET_ALLOW :: "32 word" where "SECCOMP_RET_ALLOW = 0x7fff0000"

definition CLONE_NEWNS :: "32 word" where "CLONE_NEWNS = 0x00020000"
definition CLONE_NEWUTS :: "32 word" where "CLONE_NEWUTS = 0x04000000"
definition CLONE_NEWIPC :: "32 word" where "CLONE_NEWIPC = 0x08000000"
definition CLONE_NEWUSER :: "32 word" where "CLONE_NEWUSER = 0x10000000"
definition CLONE_NEWPID :: "32 word" where "CLONE_NEWPID = 0x20000000"
definition CLONE_NEWNET :: "32 word" where "CLONE_NEWNET = 0x40000000"

definition CAP_EFFECTIVE :: "32 word" where "CAP_EFFECTIVE = 0"
definition CAP_PERMITTED :: "32 word" where "CAP_PERMITTED = 1"
definition CAP_INHERITABLE :: "32 word" where "CAP_INHERITABLE = 2"


section \<open>The module contract (modules/interface/IModule.h)\<close>

datatype ModuleState = UNINITIALIZED | INITIALIZED | RUNNING | STOPPING | STOPPED | ERROR

text \<open>
  A C++ data member \<open>x_\<close> is the record field \<open>x\<close> (an Isabelle name cannot end in
  an underscore), prefixed where several classes share the name (\<open>state_\<close>).

  What the host environment supplies besides the success of each call: the pid of the
  supervising process, which allow-list names libseccomp resolves and accepts, and the
  values the engine's own system calls return (section "The engine").
\<close>

record host =
  kernel :: kernel
  getpid :: int
  seccomp_allows :: "string \<Rightarrow> bool"
  pipe_fds :: "int \<times> int"
  fork_pid :: int
  waitpid_result :: "int \<times> 32 word"
  pipe_data :: "string list"
  steady_clock_ms :: "int \<times> int"

subsection \<open>Namespaces (modules/isolation/Namespaces.cpp)\<close>

record NamespacesF =
  ns_state :: ModuleState
  userNsEnabled :: bool

definition hasNamespace :: "string \<Rightarrow> SandboxConfiguration \<Rightarrow> bool" where
  "hasNamespace nsName config = (nsName \<in> set (namespaces (isolation config)))"

definition getNamespaceFlag :: "string \<Rightarrow> 32 word" where
  "getNamespaceFlag nsName =
     (if nsName = ''pid'' then CLONE_NEWPID
      else if nsName = ''net'' then CLONE_NEWNET
      else if nsName = ''ipc'' then CLONE_NEWIPC
      else if nsName = ''uts'' then CLONE_NEWUTS
      else if nsName = ''mount'' then CLONE_NEWNS
      else if nsName = ''user'' then CLONE_NEWUSER
      else 0)"

definition Namespaces_initialize ::
  "SandboxConfiguration \<Rightarrow> NamespacesF \<Rightarrow> trace \<Rightarrow> bool \<times> NamespacesF \<times> trace" where
  "Namespaces_initialize config f t =
     (True, f\<lparr>userNsEnabled := hasNamespace ''user'' config, ns_state := INITIALIZED\<rparr>, t)"

definition applyUserNamespace :: "kernel \<Rightarrow> SandboxConfiguration \<Rightarrow> trace \<Rightarrow> bool \<times> trace" where
  "applyUserNamespace k config t0 =
     (let t1 = snd (sys k (WriteFile ''/proc/self/setgroups'' ''deny'') t0);
          uidMap = to_string (container_uid (uid_map (isolation config))) @ '' '' @
                   to_string (host_uid (uid_map (isolation config))) @ '' '' @
                   to_string (uid_count (uid_map (isolation config)));
          (ok2, t2) = sys k (WriteFile ''/proc/self/uid_map'' uidMap) t1
      in if \<not> ok2 then (False, t2)
         else
           let gidMap = to_string (container_gid (gid_map (isolation config))) @ '' '' @
                        to_string (host_gid (gid_map (isolation config))) @ '' '' @
                        to_string (gid_count (gid_map (isolation config)));
               (ok3, t3) = sys k (WriteFile ''/proc/self/gid_map'' gidMap) t2
           in if \<not> ok3 then (False, t3) else (True, t3))"

definition Namespaces_applyChild ::
  "kernel \<Rightarrow> SandboxConfiguration \<Rightarrow> NamespacesF \<Rightarrow> trace \<Rightarrow> bool \<times> NamespacesF \<times> trace" where
  "Namespaces_applyChild k config f t0 =
     (let (ok1, t1) = (if userNsEnabled f then applyUserNamespace k config t0 else (True, t0))
      in if \<not> ok1 then (False, f, t1)
         else
           let (ok2, t2) =
                 (if hasNamespace ''pid'' config
                  then sys k (Mount ''proc'' ''/proc'' ''proc'' (MS_NOSUID OR MS_NOEXEC OR MS_NODEV) None) t1
                  else (True, t1))
           in if \<not> ok2 then (False, f, t2)
              else
                let t3 = (if hasNamespace ''mount'' config
                          then snd (sys k (Mount ''sysfs'' ''/sys'' ''sysfs''
                                             (MS_NOSUID OR MS_NOEXEC OR MS_NODEV) None) t2)
                          else t2);
                    t4 = (if hasNamespace ''uts'' config
                          then snd (sys k (SetHostname (hostname (sandbox config))) t3)
                          else t3)
                in (True, f\<lparr>ns_state := RUNNING\<rparr>, t4))"

subsection \<open>Cgroups (modules/isolation/Cgroups.cpp)\<close>

record CgroupsF =
  cg_state :: ModuleState
  cgroupPath :: string
  cgroupName :: string
  cgroupFullPath :: string

definition setCgroupValue :: "kernel \<Rightarrow> string \<Rightarrow> string \<Rightarrow> string \<Rightarrow> string \<Rightarrow> trace \<Rightarrow> bool \<times> trace" where
  "setCgroupValue k hierarchy nm setting v t =
     sys k (WriteFile (hierarchy @ ''/'' @ nm @ ''/'' @ setting) v) t"

definition addToCgroup :: "kernel \<Rightarrow> string \<Rightarrow> string \<Rightarrow> int \<Rightarrow> trace \<Rightarrow> bool \<times> trace" where
  "addToCgroup k hierarchy nm pid t =
     sys k (WriteFile (hierarchy @ ''/'' @ nm @ ''/cgroup.procs'') (to_string pid)) t"

definition removeCgroup :: "kernel \<Rightarrow> string \<Rightarrow> string \<Rightarrow> trace \<Rightarrow> bool \<times> trace" where
  "removeCgroup k hierarchy nm t = sys k (RemoveRecursive (hierarchy @ ''/'' @ nm)) t"

definition setMemoryLimits :: "kernel \<Rightarrow> SandboxConfiguration \<Rightarrow> CgroupsF \<Rightarrow> trace \<Rightarrow> bool \<times> trace" where
  "setMemoryLimits k config f t0 =
     (let memoryBytes = memory_mb (resources config) * 1024 * 1024;
          (ok1, t1) = setCgroupValue k (cgroupPath f) (cgroupName f) ''memory.max''
                        (to_string memoryBytes) t0
      in if \<not> ok1 then (False, t1)
         else
           let t2 = (if enable_swap (resources config)
                     then snd (setCgroupValue k (cgroupPath f) (cgroupName f)
                                 ''memory.swap.max'' ''0'' t1)
                     else t1);
               t3 = snd (setCgroupValue k (cgroupPath f) (cgroupName f) ''memory.high''
                           (to_string (memoryBytes * 8 sdiv 10)) t2)
           in (True, t3))"

text \<open>
  \<open>long long quota = config.resources.cpu_quota_percent * 1000;\<close> Both operands are
  \<open>int\<close>, so the product is formed in 32 bits and only the result is widened: for a
  percentage beyond 2147483 in absolute value the two's-complement product wraps (the
  value the compiled code delivers; the language leaves signed overflow undefined).
\<close>

definition setCpuLimits :: "kernel \<Rightarrow> SandboxConfiguration \<Rightarrow> CgroupsF \<Rightarrow> trace \<Rightarrow> bool \<times> trace" where
  "setCpuLimits k config f t0 =
     (let quota = sint (word_of_int (cpu_quota_percent (resources config)) * 1000 :: 32 word)
      in setCgroupValue k (cgroupPath f) (cgroupName f) ''cpu.max''
           (to_string quota @ '' 100000'') t0)"

definition setPidLimits :: "kernel \<Rightarrow> SandboxConfiguration \<Rightarrow> CgroupsF \<Rightarrow> trace \<Rightarrow> bool \<times> trace" where
  "setPidLimits k config f t0 =
     (if max_pids (resources config) > 0
      then setCgroupValue k (cgroupPath f) (cgroupName f) ''pids.max''
             (to_string (max_pids (resources config))) t0
      else (True, t0))"

definition createCgroup :: "kernel \<Rightarrow> SandboxConfiguration \<Rightarrow> CgroupsF \<Rightarrow> trace \<Rightarrow> bool \<times> trace" where
  "createCgroup k config f t0 =
     (let (ok1, t1) = sys k (MkdirRecursive (cgroupFullPath f)) t0
      in if \<not> ok1 then (False, t1)
         else
           let (ok2, t2) = setMemoryLimits k config f t1
           in if \<not> ok2 then (False, t2)
              else
                let (ok3, t3) = setCpuLimits k config f t2
                in if \<not> ok3 then (False, t3)
                   else
                     let (ok4, t4) = setPidLimits k config f t3
                     in if \<not> ok4 then (False, t4) else (True, t4))"

text \<open>The constructor, with its default argument \<open>cgroupPath = "/sys/fs/cgroup"\<close>.\<close>

definition Cgroups_fields :: CgroupsF where
  "Cgroups_fields = \<lparr> cg_state = UNINITIALIZED, cgroupPath = ''/sys/fs/cgroup'',
                       cgroupName = [], cgroupFullPath = [] \<rparr>"

definition swap_max_path :: "CgroupsF \<Rightarrow> string" where
  "swap_max_path f = cgroupPath f @ ''/'' @ cgroupName f @ ''/memory.swap.max''"

definition Cgroups_initialize ::
  "host \<Rightarrow> SandboxConfiguration \<Rightarrow> CgroupsF \<Rightarrow> trace \<Rightarrow> bool \<times> CgroupsF \<times> trace" where
  "Cgroups_initialize h config f0 t0 =
     (let f1 = f0\<lparr>cgroupName := ''sandbox-'' @ name (sandbox config) @ ''-'' @ to_string (getpid h)\<rparr>;
          f2 = f1\<lparr>cgroupFullPath := cgroupPath f1 @ ''/'' @ cgroupName f1\<rparr>;
          (ok, t1) = createCgroup (kernel h) config f2 t0
      in if \<not> ok then (False, f2, t1)
         else (True, f2\<lparr>cg_state := INITIALIZED\<rparr>, t1))"

definition Cgroups_prepareChild :: "kernel \<Rightarrow> int \<Rightarrow> CgroupsF \<Rightarrow> trace \<Rightarrow> bool \<times> trace" where
  "Cgroups_prepareChild k childPid f t0 =
     (let (ok, t1) = addToCgroup k (cgroupPath f) (cgroupName f) childPid t0
      in if \<not> ok then (False, t1) else (True, t1))"

definition Cgroups_cleanup :: "kernel \<Rightarrow> CgroupsF \<Rightarrow> trace \<Rightarrow> bool \<times> CgroupsF \<times> trace" where
  "Cgroups_cleanup k f t0 =
     (let t1 = (if cgroupFullPath f \<noteq> []
                then snd (removeCgroup k (cgroupPath f) (cgroupName f) t0)
                else t0)
      in (True, f\<lparr>cg_state := STOPPED\<rparr>, t1))"


subsection \<open>Seccomp (modules/security/Seccomp.h, Seccomp.cpp)\<close>

definition ACTION_KILL :: "32 word" where "ACTION_KILL = SECCOMP_RET_KILL"
definition ACTION_TRAP :: "32 word" where "ACTION_TRAP = SECCOMP_RET_TRAP"
definition ACTION_ERRNO :: "32 word" where "ACTION_ERRNO = SECCOMP_RET_ERRNO"
definition ACTION_TRACE :: "32 word" where "ACTION_TRACE = SECCOMP_RET_TRACE"
definition ACTION_LOG :: "32 word" where "ACTION_LOG = SECCOMP_RET_LOG"
definition ACTION_ALLOW :: "32 word" where "ACTION_ALLOW = SECCOMP_RET_ALLOW"

record SeccompF =
  sc_state :: ModuleState
  defaultAction :: "32 word"
  filterBlob :: filter_blob
  sc_enabled :: bool

text \<open>The constructor: \<open>state_(UNINITIALIZED), defaultAction_(ACTION_ERRNO), enabled_(true)\<close>.\<close>

definition Seccomp_new :: SeccompF where
  "Seccomp_new = \<lparr> sc_state = UNINITIALIZED, defaultAction = ACTION_ERRNO,
                    filterBlob = EmptyBlob, sc_enabled = True \<rparr>"

definition essentialCalls :: "string list" where
  "essentialCalls =
     [''read'', ''write'', ''close'', ''brk'', ''execve'', ''exit_group'', ''exit'',
      ''getpid'', ''gettid'', ''getppid'', ''getuid'', ''getgid'', ''geteuid'', ''getegid'',
      ''getrandom'', ''mmap'', ''mprotect'', ''munmap'', ''rt_sigaction'',
      ''rt_sigprocmask'', ''rt_sigreturn'', ''ioctl'', ''pread64'', ''pwrite64'',
      ''readv'', ''writev'', ''access'', ''pipe'', ''sched_yield'', ''mremap'',
      ''msync'', ''mincore'', ''madvise'', ''shmget'', ''shmat'', ''shmctl'',
      ''dup'', ''dup2'', ''pause'', ''nanosleep'', ''getitimer'', ''setitimer'',
      ''alarm'', ''setpgid'', ''getpgid'', ''getsid'', ''setsid'', ''syslog'',
      ''getrlimit'', ''getrusage'', ''gettimeofday'', ''settimeofday'',
      ''symlink'', ''readlink'', ''uselib'', ''readahead'', ''setxattr'',
      ''lsetxattr'', ''fsetxattr'', ''getxattr'', ''lgetxattr'', ''fgetxattr'',
      ''listxattr'', ''llistxattr'', ''flistxattr'', ''removexattr'',
      ''lremovexattr'', ''fremovexattr'', ''tkill'', ''time'', ''futex'',
      ''sched_setaffinity'', ''sched_getaffinity'', ''io_setup'', ''io_destroy'',
      ''io_getevents'', ''io_submit'', ''io_cancel'', ''lookup_dcookie'',
      ''epoll_create'', ''remap_file_pages'', ''set_tid_address'', ''timer_create'',
      ''timer_settime'', ''timer_gettime'', ''timer_getoverrun'', ''timer_delete'',
      ''clock_settime'', ''clock_gettime'', ''clock_getres'', ''clock_nanosleep'',
      ''exit'', ''wait4'', ''kill'', ''uname'', ''semget'', ''semop'', ''semctl'',
      ''shmdt'', ''msgget'', ''msgsnd'', ''msgrcv'', ''msgctl'', ''fcntl'', ''flock'',
      ''fsync'', ''fdatasync'', ''truncate'', ''ftruncate'', ''getcwd'', ''chdir'',
      ''fchdir'', ''rename'', ''mkdir'', ''rmdir'', ''creat'', ''link'', ''unlink'',
      ''open'', ''close'', ''vhangup'', ''signal'', ''sethostname'', ''setrlimit'']"

definition loadProfile :: "kernel \<Rightarrow> string \<Rightarrow> trace \<Rightarrow> bool \<times> trace" where
  "loadProfile k path t0 =
     (let (ok, t1) = sys k (ReadFile path) t0
      in if \<not> ok then (False, t1) else (True, t1))"

text \<open>
  \<open>generateDefaultPolicy\<close>: \<open>seccomp_init(defaultAction_)\<close>, one allow rule for each
  essential call that libseccomp resolves and accepts (a failure there is only a
  warning), then the filter is exported in two steps: the size query, after which the
  blob is resized (zero-filled), and the export itself. \<open>Bpf a rules\<close> stands for the
  program compiled from default action \<open>a\<close> and the allow rules.
\<close>

definition generateDefaultPolicy :: "host \<Rightarrow> SeccompF \<Rightarrow> trace \<Rightarrow> bool \<times> SeccompF \<times> trace" where
  "generateDefaultPolicy h f t0 =
     (let (ok1, t1) = sys (kernel h) (SeccompInit (defaultAction f)) t0
      in if \<not> ok1 then (False, f, t1)
         else
           let rules = filter (seccomp_allows h) essentialCalls;
               f1 = f\<lparr>filterBlob := EmptyBlob\<rparr>;
               (ok2, t2) = sys (kernel h) (SeccompExportBpf False) t1
           in if \<not> ok2 then (False, f1, t2)
              else
                let f2 = f1\<lparr>filterBlob := ZeroedBlob\<rparr>;
                    (ok3, t3) = sys (kernel h) (SeccompExportBpf True) t2
                in if \<not> ok3 then (False, f2, t3)
                   else (True, f2\<lparr>filterBlob := Bpf (defaultAction f) rules\<rparr>, t3))"

definition loadDefaultAllowlist :: "host \<Rightarrow> SeccompF \<Rightarrow> trace \<Rightarrow> bool \<times> SeccompF \<times> trace" where
  "loadDefaultAllowlist h f t = generateDefaultPolicy h f t"

definition installFilter :: "host \<Rightarrow> SeccompF \<Rightarrow> trace \<Rightarrow> bool \<times> SeccompF \<times> trace" where
  "installFilter h f t0 =
     (if filterBlob f = EmptyBlob
      then (let (ok, f1, t1) = loadDefaultAllowlist h f t0
            in if \<not> ok then (False, f1, t1) else (True, f1, t1))
      else (True, f, t0))"

definition Seccomp_initialize ::
  "host \<Rightarrow> SandboxConfiguration \<Rightarrow> SeccompF \<Rightarrow> trace \<Rightarrow> bool \<times> SeccompF \<times> trace" where
  "Seccomp_initialize h config f0 t0 =
     (let f1 = f0\<lparr>sc_enabled := (seccomp_policy (security config) \<noteq> [] \<or>
                                  seccomp_profile_path (security config) \<noteq> [])\<rparr>
      in if \<not> sc_enabled f1 then (True, f1\<lparr>sc_state := INITIALIZED\<rparr>, t0)
         else
           let f2 = (if seccomp_policy (security config) = ''default''
                       then f1\<lparr>defaultAction := ACTION_ERRNO\<rparr>
                     else if seccomp_policy (security config) = ''strict''
                       then f1\<lparr>defaultAction := ACTION_KILL\<rparr>
                     else if seccomp_policy (security config) = ''log''
                       then f1\<lparr>defaultAction := ACTION_LOG\<rparr>
                     else if seccomp_policy (security config) = ''allow''
                       then f1\<lparr>defaultAction := ACTION_ALLOW\<rparr>
                     else f1)
           in if seccomp_profile_path (security config) \<noteq> []
              then (let (ok, t1) = loadProfile (kernel h) (seccomp_profile_path (security config)) t0
                    in if \<not> ok then (False, f2, t1)
                       else (True, f2\<lparr>sc_state := INITIALIZED\<rparr>, t1))
              else (let (ok, f3, t1) = generateDefaultPolicy h f2 t0
                    in if \<not> ok then (False, f3, t1)
                       else (True, f3\<lparr>sc_state := INITIALIZED\<rparr>, t1)))"

definition Seccomp_applyChild :: "host \<Rightarrow> SeccompF \<Rightarrow> trace \<Rightarrow> bool \<times> SeccompF \<times> trace" where
  "Seccomp_applyChild h f0 t0 =
     (if \<not> sc_enabled f0 then (True, f0, t0)
      else
        let (ok1, f1, t1) = (if filterBlob f0 = EmptyBlob then installFilter h f0 t0
                             else (True, f0, t0))
        in if \<not> ok1 then (False, f1, t1)
           else
             let (ok2, t2) = sys (kernel h)
                               (Prctl PR_SET_SECCOMP (ArgFilter SECCOMP_MODE_FILTER (filterBlob f1))) t1
             in if \<not> ok2 then (False, f1, t2)
                else (True, f1\<lparr>sc_state := RUNNING\<rparr>, t2))"

definition Seccomp_cleanup :: "SeccompF \<Rightarrow> bool \<times> SeccompF" where
  "Seccomp_cleanup f = (True, f\<lparr>filterBlob := EmptyBlob, sc_state := STOPPED\<rparr>)"

subsection \<open>Caps (modules/security/Caps.cpp)\<close>

record CapsF =
  caps_state :: ModuleState
  grantedCapabilities :: "string list"
  ambientCapsEnabled :: bool

definition capabilityTable :: "(string \<times> int) list" where
  "capabilityTable =
     [(''CAP_CHOWN'', 0), (''CAP_DAC_OVERRIDE'', 1), (''CAP_DAC_READ_SEARCH'', 2),
      (''CAP_FOWNER'', 3), (''CAP_FSETID'', 4), (''CAP_KILL'', 5), (''CAP_SETGID'', 6),
      (''CAP_SETUID'', 7), (''CAP_SETPCAP'', 8), (''CAP_LINUX_IMMUTABLE'', 9),
      (''CAP_NET_BIND_SERVICE'', 10), (''CAP_NET_BROADCAST'', 11), (''CAP_NET_ADMIN'', 12),
      (''CAP_NET_RAW'', 13), (''CAP_IPC_LOCK'', 14), (''CAP_IPC_OWNER'', 15),
      (''CAP_SYS_MODULE'', 16), (''CAP_SYS_RAWIO'', 17), (''CAP_SYS_CHROOT'', 18),
      (''CAP_SYS_PTRACE'', 19), (''CAP_SYS_PACCT'', 20), (''CAP_SYS_ADMIN'', 21),
      (''CAP_SYS_BOOT'', 22), (''CAP_SYS_NICE'', 23), (''CAP_SYS_RESOURCE'', 24),
      (''CAP_SYS_TIME'', 25), (''CAP_SYS_TTY_CONFIG'', 26), (''CAP_MKNOD'', 27),
      (''CAP_LEASE'', 28), (''CAP_AUDIT_WRITE'', 29), (''CAP_AUDIT_CONTROL'', 30),
      (''CAP_SETFCAP'', 31)]"

definition capabilityFromName :: "string \<Rightarrow> int" where
  "capabilityFromName nm = (case map_of capabilityTable nm of Some n \<Rightarrow> n | None \<Rightarrow> - 1)"

definition Caps_initialize :: "SandboxConfiguration \<Rightarrow> CapsF \<Rightarrow> bool \<times> CapsF" where
  "Caps_initialize config f =
     (True, f\<lparr>grantedCapabilities := capabilities (security config), caps_state := INITIALIZED\<rparr>)"

fun ambient_loop :: "kernel \<Rightarrow> int list \<Rightarrow> CapsF \<Rightarrow> trace \<Rightarrow> CapsF \<times> trace" where
  "ambient_loop k [] f t = (f, t)"
| "ambient_loop k (c # cs) f t =
     (let (ok, t1) = sys k (CapUpdateAmbient c) t
      in ambient_loop k cs (if ok then f\<lparr>ambientCapsEnabled := True\<rparr> else f) t1)"

text \<open>
  \<open>capList\<close> is a fixed array of 64 entries in the source; a configuration naming more
  than 64 known capabilities writes past it, which this model does not cover.
\<close>

definition Caps_applyChild ::
  "kernel \<Rightarrow> SandboxConfiguration \<Rightarrow> CapsF \<Rightarrow> trace \<Rightarrow> bool \<times> CapsF \<times> trace" where
  "Caps_applyChild k config f t0 =
     (let (ok0, t1) = sys k CapGetProc t0
      in if \<not> ok0 then (False, f, t1)
         else
           let capList = filter (\<lambda>n. n \<ge> 0) (map capabilityFromName (capabilities (security config)));
               (ok1, t2) = (if length capList > 0 then sys k (CapSetFlag CAP_EFFECTIVE capList) t1
                            else (True, t1))
           in if \<not> ok1 then (False, f, t2)
              else
                let (ok2, t3) = (if length capList > 0 then sys k (CapSetFlag CAP_PERMITTED capList) t2
                                 else (True, t2))
                in if \<not> ok2 then (False, f, t3)
                   else
                     let (ok3, t4) = (if length capList > 0
                                      then sys k (CapSetFlag CAP_INHERITABLE capList) t3
                                      else (True, t3))
                     in if \<not> ok3 then (False, f, t4)
                        else
                          let (ok4, t5) = sys k CapSetProc t4
                          in if \<not> ok4 then (False, f, t5)
                             else
                               let (f1, t6) = ambient_loop k capList f t5
                               in (True, f1\<lparr>caps_state := RUNNING\<rparr>, t6))"

definition Caps_cleanup :: "CapsF \<Rightarrow> bool \<times> CapsF" where
  "Caps_cleanup f = (True, f\<lparr>grantedCapabilities := [], caps_state := STOPPED\<rparr>)"


subsection \<open>RootFS (modules/filesystem/RootFS.cpp)\<close>

record RootFSF =
  rf_state :: ModuleState
  rootPath :: string
  oldRootPath :: string
  bootstrapRequired :: bool

text \<open>
  \<open>bootstrap\<close> forks, runs debootstrap on (release, rootfs_path) and succeeds when it
  exits with status 0: one call to the environment.
\<close>

definition bootstrap :: "kernel \<Rightarrow> SandboxConfiguration \<Rightarrow> trace \<Rightarrow> bool \<times> trace" where
  "bootstrap k config t =
     sys k (Debootstrap (release (sandbox config)) (rootfs_path (sandbox config))) t"

text \<open>The constructor: \<open>state_(UNINITIALIZED), bootstrapRequired_(false)\<close>, empty paths.\<close>

definition RootFS_fields :: RootFSF where
  "RootFS_fields = \<lparr> rf_state = UNINITIALIZED, rootPath = [], oldRootPath = [],
                      bootstrapRequired = False \<rparr>"

definition RootFS_initialize ::
  "kernel \<Rightarrow> SandboxConfiguration \<Rightarrow> RootFSF \<Rightarrow> trace \<Rightarrow> bool \<times> RootFSF \<times> trace" where
  "RootFS_initialize k config f0 t0 =
     (let f1 = f0\<lparr>rootPath := rootfs_path (sandbox config), oldRootPath := ''/oldroot''\<rparr>;
          (ex1, t1) = (if auto_bootstrap (sandbox config) then sys k (Exists (rootPath f1)) t0
                       else (True, t0));
          f2 = f1\<lparr>bootstrapRequired := (auto_bootstrap (sandbox config) \<and> \<not> ex1)\<rparr>;
          (ok2, t2) = (if bootstrapRequired f2 then bootstrap k config t1 else (True, t1))
      in if \<not> ok2 then (False, f2, t2)
         else
           let (ex3, t3) = sys k (Exists (rootPath f2)) t2
           in if \<not> ex3 then (False, f2, t3)
              else (True, f2\<lparr>rf_state := INITIALIZED\<rparr>, t3))"

definition requiredDirs :: "string list" where
  "requiredDirs =
     [''/bin'', ''/etc'', ''/home'', ''/lib'', ''/lib64'', ''/media'',
      ''/mnt'', ''/opt'', ''/root'', ''/sbin'', ''/srv'', ''/tmp'',
      ''/usr'', ''/var'']"

fun setupMounts_loop :: "kernel \<Rightarrow> string \<Rightarrow> string list \<Rightarrow> trace \<Rightarrow> trace" where
  "setupMounts_loop k root [] t = t"
| "setupMounts_loop k root (dir # dirs) t =
     (let fullPath = root @ dir;
          (isdir, t1) = sys k (IsDirectory fullPath) t;
          t2 = (if \<not> isdir then snd (sys k (MkdirRecursive fullPath) t1) else t1)
      in setupMounts_loop k root dirs t2)"

definition setupMounts :: "kernel \<Rightarrow> RootFSF \<Rightarrow> trace \<Rightarrow> bool \<times> trace" where
  "setupMounts k f t = (True, setupMounts_loop k (rootPath f) requiredDirs t)"

definition doPivotRoot :: "kernel \<Rightarrow> string \<Rightarrow> string \<Rightarrow> trace \<Rightarrow> bool \<times> trace" where
  "doPivotRoot k newRoot putOld t0 =
     (let (ok1, t1) = sys k (Mount newRoot newRoot [] (MS_BIND OR MS_REC) None) t0
      in if \<not> ok1 then (False, t1)
         else
           let (ok2, t2) = sys k (PivotRoot newRoot putOld) t1
           in if \<not> ok2 then (False, t2)
              else
                let (ok3, t3) = sys k (Chdir ''/'') t2
                in if \<not> ok3 then (False, t3) else (True, t3))"

definition RootFS_applyChild :: "kernel \<Rightarrow> RootFSF \<Rightarrow> trace \<Rightarrow> bool \<times> RootFSF \<times> trace" where
  "RootFS_applyChild k f t0 =
     (let (ok1, t1) = setupMounts k f t0
      in if \<not> ok1 then (False, f, t1)
         else
           let oldRootDir = rootPath f @ oldRootPath f;
               (ok2, t2) = sys k (MkdirRecursive oldRootDir) t1
           in if \<not> ok2 then (False, f, t2)
              else
                let (ok3, t3) = doPivotRoot k (rootPath f) oldRootDir t2
                in if \<not> ok3 then (False, f, t3)
                   else
                     let t4 = snd (sys k (Unmount (oldRootPath f) MNT_DETACH) t3);
                         (ok5, t5) = sys k (Mount ''proc'' ''/proc'' ''proc''
                                              (MS_NOSUID OR MS_NOEXEC OR MS_NODEV) None) t4
                     in if \<not> ok5 then (False, f, t5)
                        else
                          let t6 = snd (sys k (Mount ''sysfs'' ''/sys'' ''sysfs''
                                                 (MS_NOSUID OR MS_NOEXEC OR MS_NODEV) None) t5);
                              t7 = snd (sys k (Mount ''tmpfs'' ''/dev'' ''tmpfs''
                                                 (MS_NOSUID OR MS_STRICTATIME) (Some ''mode=755'')) t6)
                          in (True, f\<lparr>rf_state := RUNNING\<rparr>, t7))"

subsection \<open>Mounts (modules/filesystem/Mounts.h, Mounts.cpp)\<close>

record MountInfo =
  info_source :: string
  info_target :: string
  fstype :: string
  flags :: "64 word"
  readOnly :: bool

record MountsF =
  mt_state :: ModuleState
  activeMounts :: "MountInfo list"

definition ensureMountTarget :: "kernel \<Rightarrow> string \<Rightarrow> trace \<Rightarrow> bool \<times> trace" where
  "ensureMountTarget k tgt t =
     (if tgt = [] \<or> tgt = ''/'' then (True, t) else sys k (MkdirRecursive tgt) t)"

definition applyBindMount :: "kernel \<Rightarrow> BindMount \<Rightarrow> trace \<Rightarrow> bool \<times> trace" where
  "applyBindMount k mnt t0 =
     (let (ex, t1) = sys k (Exists (source mnt)) t0;
          t2 = (if \<not> ex then snd (sys k (MkdirRecursive (source mnt)) t1) else t1);
          (ok3, t3) = ensureMountTarget k (target mnt) t2
      in if \<not> ok3 then (False, t3)
         else
           let (ok4, t4) = sys k (Mount (source mnt) (target mnt) ''bind'' MS_BIND None) t3
           in if \<not> ok4 then (False, t4)
              else
                let t5 = (if read_only mnt
                          then snd (sys k (Mount [] (target mnt) ''bind''
                                             (MS_BIND OR MS_REMOUNT OR MS_RDONLY) None) t4)
                          else t4)
                in (True, t5))"

fun Mounts_applyChild_loop :: "kernel \<Rightarrow> BindMount list \<Rightarrow> MountsF \<Rightarrow> trace \<Rightarrow> bool \<times> MountsF \<times> trace" where
  "Mounts_applyChild_loop k [] f t = (True, f, t)"
| "Mounts_applyChild_loop k (mnt # mnts) f t =
     (let (ok, t1) = applyBindMount k mnt t
      in if \<not> ok then (False, f, t1)
         else
           let info = \<lparr> info_source = source mnt, info_target = target mnt, fstype = ''bind'',
                        flags = MS_BIND, readOnly = read_only mnt \<rparr>
           in Mounts_applyChild_loop k mnts (f\<lparr>activeMounts := activeMounts f @ [info]\<rparr>) t1)"

definition Mounts_applyChild ::
  "kernel \<Rightarrow> SandboxConfiguration \<Rightarrow> MountsF \<Rightarrow> trace \<Rightarrow> bool \<times> MountsF \<times> trace" where
  "Mounts_applyChild k config f t0 =
     (let (ok, f1, t1) = Mounts_applyChild_loop k (bind_mounts (mounts config)) f t0
      in if \<not> ok then (False, f1, t1) else (True, f1\<lparr>mt_state := RUNNING\<rparr>, t1))"

fun unmount_all :: "kernel \<Rightarrow> MountInfo list \<Rightarrow> trace \<Rightarrow> trace" where
  "unmount_all k [] t = t"
| "unmount_all k (i # is) t = unmount_all k is (snd (sys k (Unmount (info_target i) 0) t))"

definition Mounts_cleanup :: "kernel \<Rightarrow> MountsF \<Rightarrow> trace \<Rightarrow> bool \<times> MountsF \<times> trace" where
  "Mounts_cleanup k f t =
     (True, f\<lparr>activeMounts := [], mt_state := STOPPED\<rparr>, unmount_all k (rev (activeMounts f)) t)"

subsection \<open>AIAgent (modules/ai/AIAgent.cpp)\<close>

text \<open>
  Only the lifecycle hooks matter to the engine. \<open>getApiKey\<close> reads the environment
  variable named by the configuration (the call succeeds when the key is non-empty);
  \<open>initCurl\<close> is one call.
\<close>

definition AIAgent_initialize ::
  "kernel \<Rightarrow> SandboxConfiguration \<Rightarrow> ModuleState \<Rightarrow> trace \<Rightarrow> bool \<times> ModuleState \<times> trace" where
  "AIAgent_initialize k config st t0 =
     (if \<not> enabled (ai_module config) then (True, INITIALIZED, t0)
      else
        let (haveKey, t1) = sys k (Getenv (api_key_env (ai_module config))) t0
        in if \<not> haveKey then (True, INITIALIZED, t1)
           else
             let (ok, t2) = sys k CurlInit t1
             in if \<not> ok then (False, st, t2) else (True, INITIALIZED, t2))"


subsection \<open>The interface and its implementations\<close>

text \<open>
  \<open>IModule\<close> is an abstract class; a module object is one of the seven built-in
  classes with its data members, or \<open>Other\<close>: any further implementation (a test
  double, say), given by its name, its dependencies and the results of its
  \<open>initialize\<close>, \<open>prepareChild\<close>, \<open>applyChild\<close> and \<open>cleanup\<close>.
\<close>

datatype IModule =
    Namespaces NamespacesF
  | Cgroups CgroupsF
  | Seccomp SeccompF
  | Caps CapsF
  | RootFS RootFSF
  | Mounts MountsF
  | AIAgent ModuleState
  | Other string "string list" bool bool bool bool

fun getName :: "IModule \<Rightarrow> string" where
  "getName (Namespaces f) = ''namespaces''"
| "getName (Cgroups f) = ''cgroups''"
| "getName (Seccomp f) = ''seccomp''"
| "getName (Caps f) = ''caps''"
| "getName (RootFS f) = ''rootfs''"
| "getName (Mounts f) = ''mounts''"
| "getName (AIAgent st) = ''ai-agent''"
| "getName (Other nm deps i p a c) = nm"

fun getDependencies :: "IModule \<Rightarrow> string list" where
  "getDependencies (Namespaces f) = []"
| "getDependencies (Cgroups f) = []"
| "getDependencies (Seccomp f) = []"
| "getDependencies (Caps f) = []"
| "getDependencies (RootFS f) = []"
| "getDependencies (Mounts f) = [''rootfs'']"
| "getDependencies (AIAgent st) = []"
| "getDependencies (Other nm deps i p a c) = deps"

fun initialize :: "host \<Rightarrow> SandboxConfiguration \<Rightarrow> IModule \<Rightarrow> trace \<Rightarrow> bool \<times> IModule \<times> trace" where
  "initialize h config (Namespaces f) t =
     (let (ok, f1, t1) = Namespaces_initialize config f t in (ok, Namespaces f1, t1))"
| "initialize h config (Cgroups f) t =
     (let (ok, f1, t1) = Cgroups_initialize h config f t in (ok, Cgroups f1, t1))"
| "initialize h config (Seccomp f) t =
     (let (ok, f1, t1) = Seccomp_initialize h config f t in (ok, Seccomp f1, t1))"
| "initialize h config (Caps f) t =
     (let (ok, f1) = Caps_initialize config f in (ok, Caps f1, t))"
| "initialize h config (RootFS f) t =
     (let (ok, f1, t1) = RootFS_initialize (kernel h) config f t in (ok, RootFS f1, t1))"
| "initialize h config (Mounts f) t = (True, Mounts (f\<lparr>mt_state := INITIALIZED\<rparr>), t)"
| "initialize h config (AIAgent st) t =
     (let (ok, st1, t1) = AIAgent_initialize (kernel h) config st t in (ok, AIAgent st1, t1))"
| "initialize h config (Other nm deps i p a c) t = (i, Other nm deps i p a c, t)"

fun prepareChild :: "host \<Rightarrow> SandboxConfiguration \<Rightarrow> int \<Rightarrow> IModule \<Rightarrow> trace \<Rightarrow> bool \<times> IModule \<times> trace" where
  "prepareChild h config pid (Cgroups f) t =
     (let (ok, t1) = Cgroups_prepareChild (kernel h) pid f t in (ok, Cgroups f, t1))"
| "prepareChild h config pid (Other nm deps i p a c) t = (p, Other nm deps i p a c, t)"
| "prepareChild h config pid md t = (True, md, t)"

fun applyChild :: "host \<Rightarrow> SandboxConfiguration \<Rightarrow> IModule \<Rightarrow> trace \<Rightarrow> bool \<times> IModule \<times> trace" where
  "applyChild h config (Namespaces f) t =
     (let (ok, f1, t1) = Namespaces_applyChild (kernel h) config f t in (ok, Namespaces f1, t1))"
| "applyChild h config (Cgroups f) t = (True, Cgroups f, t)"
| "applyChild h config (Seccomp f) t =
     (let (ok, f1, t1) = Seccomp_applyChild h f t in (ok, Seccomp f1, t1))"
| "applyChild h config (Caps f) t =
     (let (ok, f1, t1) = Caps_applyChild (kernel h) config f t in (ok, Caps f1, t1))"
| "applyChild h config (RootFS f) t =
     (let (ok, f1, t1) = RootFS_applyChild (kernel h) f t in (ok, RootFS f1, t1))"
| "applyChild h config (Mounts f) t =
     (let (ok, f1, t1) = Mounts_applyChild (kernel h) config f t in (ok, Mounts f1, t1))"
| "applyChild h config (AIAgent st) t = (True, AIAgent st, t)"
| "applyChild h config (Other nm deps i p a c) t = (a, Other nm deps i p a c, t)"

fun cleanup :: "host \<Rightarrow> IModule \<Rightarrow> trace \<Rightarrow> bool \<times> IModule \<times> trace" where
  "cleanup h (Namespaces f) t = (True, Namespaces (f\<lparr>ns_state := STOPPED\<rparr>), t)"
| "cleanup h (Cgroups f) t =
     (let (ok, f1, t1) = Cgroups_cleanup (kernel h) f t in (ok, Cgroups f1, t1))"
| "cleanup h (Seccomp f) t = (let (ok, f1) = Seccomp_cleanup f in (ok, Seccomp f1, t))"
| "cleanup h (Caps f) t = (let (ok, f1) = Caps_cleanup f in (ok, Caps f1, t))"
| "cleanup h (RootFS f) t = (True, RootFS (f\<lparr>rf_state := STOPPED\<rparr>), t)"
| "cleanup h (Mounts f) t =
     (let (ok, f1, t1) = Mounts_cleanup (kernel h) f t in (ok, Mounts f1, t1))"
| "cleanup h (AIAgent st) t = (True, AIAgent STOPPED, t)"
| "cleanup h (Other nm deps i p a c) t = (c, Other nm deps i p a c, t)"


section \<open>The engine (core/SandboxManager.h, SandboxManager.cpp)\<close>

subsection \<open>std::map\<close>

text \<open>
  \<open>std::map<std::string, V>\<close> is the list of its entries in ascending key order, the
  order in which a range-for visits them; \<open>std::string\<close> compares bytes
  lexicographically, as \<open><\<close> on \<open>string\<close> does. \<open>map_put\<close> is \<open>m[k] = v\<close>.
\<close>

type_synonym 'v std_map = "(string \<times> 'v) list"

fun map_put :: "string \<Rightarrow> 'v \<Rightarrow> 'v std_map \<Rightarrow> 'v std_map" where
  "map_put k v [] = [(k, v)]"
| "map_put k v ((k', v') # es) =
     (if k < k' then (k, v) # (k', v') # es
      else if k = k' then (k, v) # es
      else (k', v') # map_put k v es)"

definition map_count :: "'v std_map \<Rightarrow> string \<Rightarrow> nat" where
  "map_count es k = length (filter (\<lambda>e. fst e = k) es)"

definition map_find :: "'v std_map \<Rightarrow> string \<Rightarrow> 'v option" where
  "map_find es k = map_of es k"

definition map_erase :: "string \<Rightarrow> 'v std_map \<Rightarrow> 'v std_map" where
  "map_erase k es = filter (\<lambda>e. fst e \<noteq> k) es"

subsection \<open>State\<close>

datatype SandboxState = CREATED | INITIALIZING | PREPARING | RUNNING | STOPPING | STOPPED | ERROR

record SandboxResult =
  exitCode :: int
  success :: bool
  errorMessage :: string
  executionTimeMs :: "int option"
  stdout :: string
  stderr :: string
  childPid :: int

text \<open>
  \<open>executionOrder_\<close> holds pointers to the module objects that \<open>modules_\<close> owns; a
  pointer is modelled by the key of its entry, which is the module's name
  (\<open>registerModule\<close> stores every module under \<open>module->getName()\<close>).
\<close>

record SandboxManager =
  mgr_config :: SandboxConfiguration
  mgr_state :: SandboxState
  modules :: "IModule std_map"
  executionOrder :: "string list"
  mgr_childPid :: int
  pipeFd :: "int \<times> int"

definition SandboxManager_new :: "SandboxConfiguration \<Rightarrow> SandboxManager" where
  "SandboxManager_new config =
     \<lparr> mgr_config = config, mgr_state = CREATED, modules = [], executionOrder = [],
       mgr_childPid = - 1, pipeFd = (- 1, - 1) \<rparr>"

definition setState :: "SandboxState \<Rightarrow> SandboxManager \<Rightarrow> SandboxManager" where
  "setState st m = m\<lparr>mgr_state := st\<rparr>"

subsection \<open>The registry\<close>

text \<open>The argument \<open>None\<close> is the null \<open>unique_ptr\<close>.\<close>

definition registerModule :: "IModule option \<Rightarrow> SandboxManager \<Rightarrow> bool \<times> SandboxManager" where
  "registerModule md m =
     (case md of
        None \<Rightarrow> (False, m)
      | Some x \<Rightarrow> (True, m\<lparr>modules := map_put (getName x) x (modules m)\<rparr>))"

definition unregisterModule :: "string \<Rightarrow> SandboxManager \<Rightarrow> bool \<times> SandboxManager" where
  "unregisterModule nm m =
     (case map_find (modules m) nm of
        None \<Rightarrow> (False, m)
      | Some x \<Rightarrow> (True, m\<lparr>modules := map_erase nm (modules m)\<rparr>))"

definition getModule :: "IModule std_map \<Rightarrow> string \<Rightarrow> IModule option" where
  "getModule ms nm = map_find ms nm"

text \<open>The modules of main.cpp's \<open>registerDefaultModules\<close>, as constructed there.\<close>

definition Namespaces_new :: IModule where
  "Namespaces_new = Namespaces \<lparr> ns_state = UNINITIALIZED, userNsEnabled = False \<rparr>"

definition Cgroups_new :: IModule where
  "Cgroups_new = Cgroups Cgroups_fields"

definition Caps_new :: IModule where
  "Caps_new = Caps \<lparr> caps_state = UNINITIALIZED, grantedCapabilities = [],
                      ambientCapsEnabled = False \<rparr>"

definition RootFS_new :: IModule where
  "RootFS_new = RootFS RootFS_fields"

definition Mounts_new :: IModule where
  "Mounts_new = Mounts \<lparr> mt_state = UNINITIALIZED, activeMounts = [] \<rparr>"

definition AIAgent_new :: IModule where
  "AIAgent_new = AIAgent UNINITIALIZED"

definition registerDefaultModules :: "SandboxManager \<Rightarrow> SandboxManager" where
  "registerDefaultModules m0 =
     (let m1 = snd (registerModule (Some Namespaces_new) m0);
          m2 = snd (registerModule (Some Cgroups_new) m1);
          m3 = snd (registerModule (Some (Seccomp Seccomp_new)) m2);
          m4 = snd (registerModule (Some Caps_new) m3);
          m5 = snd (registerModule (Some RootFS_new) m4);
          m6 = snd (registerModule (Some Mounts_new) m5)
      in snd (registerModule (Some AIAgent_new) m6))"

subsection \<open>Dependency resolution\<close>

text \<open>
  The depth-first search of \<open>resolveDependencies\<close>. The source keeps two sets,
  \<open>visited\<close> and \<open>temp\<close>, and the vector \<open>executionOrder_\<close>. \<open>temp\<close> is inserted into
  on entry (only when the name is not yet in it) and erased from on exit, so on return it
  is what it was at the call: it is the set of names on the current search path, and is
  passed downwards as an argument, while \<open>visited\<close> and the order are threaded through.
  The search terminates because every nested call has one more registered name on
  its path.
\<close>

type_synonym dfs_state = "string list \<times> string list"

function dfs :: "IModule std_map \<Rightarrow> string list \<Rightarrow> string \<Rightarrow> dfs_state \<Rightarrow> dfs_state"
  and dfs_deps :: "IModule std_map \<Rightarrow> string list \<Rightarrow> string list \<Rightarrow> dfs_state \<Rightarrow> dfs_state" where
  "dfs ms temp nm st =
     (if nm \<in> set temp then st
      else if nm \<in> set (fst st) then st
      else case getModule ms nm of
             None \<Rightarrow> st
           | Some md \<Rightarrow>
               (let st1 = dfs_deps ms (nm # temp) (getDependencies md) st
                in (nm # fst st1, snd st1 @ [nm])))"
| "dfs_deps ms temp [] st = st"
| "dfs_deps ms temp (dep # deps) st = dfs_deps ms temp deps (dfs ms temp dep st)"
  by pat_completeness auto

termination
proof (relation "measures
    [\<lambda>x. case x of
            Inl (ms, temp, nm, st) \<Rightarrow> length (filter (\<lambda>k. k \<notin> set temp) (map fst ms))
          | Inr (ms, temp, deps, st) \<Rightarrow> length (filter (\<lambda>k. k \<notin> set temp) (map fst ms)),
     \<lambda>x. case x of
            Inl (ms, temp, nm, st) \<Rightarrow> 0
          | Inr (ms, temp, deps, st) \<Rightarrow> Suc (length deps)]", goal_cases)
  case 1
  show ?case by simp
next
  case (2 ms temp nm st md)
  define ks where "ks = filter (\<lambda>k. k \<notin> set temp) (map fst ms)"
  have in_keys: "nm \<in> set ks"
    using 2 unfolding ks_def getModule_def map_find_def
    by (auto dest: map_of_SomeD intro: rev_image_eqI)
  have eq: "filter (\<lambda>k. k \<notin> set (nm # temp)) (map fst ms) = filter (\<lambda>k. k \<noteq> nm) ks"
    unfolding ks_def by (auto intro: filter_cong)
  have "length (filter (\<lambda>k. k \<noteq> nm) ks) < length ks"
    using in_keys by (intro length_filter_less) auto
  then have lt: "length (filter (\<lambda>k. k \<notin> set (nm # temp)) (map fst ms))
          < length (filter (\<lambda>k. k \<notin> set temp) (map fst ms))"
    unfolding eq unfolding ks_def .
  show ?case using lt by simp
next
  case 3
  show ?case by simp
next
  case 4
  show ?case by simp
qed

declare dfs.simps [simp del]

text \<open>The range-for over \<open>modules_\<close>: each name not yet visited starts a search.\<close>

fun resolve_loop :: "IModule std_map \<Rightarrow> string list \<Rightarrow> dfs_state \<Rightarrow> dfs_state" where
  "resolve_loop ms [] st = st"
| "resolve_loop ms (nm # nms) st =
     resolve_loop ms nms (if nm \<notin> set (fst st) then dfs ms [] nm st else st)"

definition resolveDependencies :: "SandboxManager \<Rightarrow> SandboxManager" where
  "resolveDependencies m =
     m\<lparr>executionOrder := snd (resolve_loop (modules m) (map fst (modules m)) ([], []))\<rparr>"

subsection \<open>The phases\<close>

text \<open>
  Each phase walks \<open>executionOrder_\<close> and calls one hook of every module through its
  pointer; the module object is updated in place. A name without an entry (a dangling
  pointer) cannot occur between \<open>resolveDependencies\<close> and the end of \<open>run\<close>; the
  model skips it.
\<close>

fun initializeModules ::
  "host \<Rightarrow> SandboxConfiguration \<Rightarrow> string list \<Rightarrow> IModule std_map \<Rightarrow> trace
     \<Rightarrow> bool \<times> IModule std_map \<times> trace" where
  "initializeModules h config [] ms t = (True, ms, t)"
| "initializeModules h config (nm # nms) ms t =
     (case getModule ms nm of
        None \<Rightarrow> initializeModules h config nms ms t
      | Some md \<Rightarrow>
          (let (ok, md1, t1) = initialize h config md (t @ [Hook H_initialize nm])
           in if \<not> ok then (False, map_put nm md1 ms, t1)
              else initializeModules h config nms (map_put nm md1 ms) t1))"

fun prepareChildProcess ::
  "host \<Rightarrow> SandboxConfiguration \<Rightarrow> int \<Rightarrow> string list \<Rightarrow> IModule std_map \<Rightarrow> trace
     \<Rightarrow> bool \<times> IModule std_map \<times> trace" where
  "prepareChildProcess h config pid [] ms t = (True, ms, t)"
| "prepareChildProcess h config pid (nm # nms) ms t =
     (case getModule ms nm of
        None \<Rightarrow> prepareChildProcess h config pid nms ms t
      | Some md \<Rightarrow>
          (let (ok, md1, t1) = prepareChild h config pid md (t @ [Hook H_prepareChild nm])
           in if \<not> ok then (False, map_put nm md1 ms, t1)
              else prepareChildProcess h config pid nms (map_put nm md1 ms) t1))"

fun applyChild_loop ::
  "host \<Rightarrow> SandboxConfiguration \<Rightarrow> string list \<Rightarrow> IModule std_map \<Rightarrow> trace
     \<Rightarrow> bool \<times> IModule std_map \<times> trace" where
  "applyChild_loop h config [] ms t = (True, ms, t)"
| "applyChild_loop h config (nm # nms) ms t =
     (case getModule ms nm of
        None \<Rightarrow> applyChild_loop h config nms ms t
      | Some md \<Rightarrow>
          (let (ok, md1, t1) = applyChild h config md (t @ [Hook H_applyChild nm])
           in if \<not> ok then (False, map_put nm md1 ms, t1)
              else applyChild_loop h config nms (map_put nm md1 ms) t1))"

text \<open>
  Modelled from the spec: the function \<open>execute\<close> that \<open>executeChild\<close> calls last is
  declared and defined nowhere in the sources at hand. The specification's child path
  ends with "execve(command[0], command, envp). On failure, _exit(127)": the call
  replaces the process image when it succeeds (no value comes back, \<open>None\<close>) and
  yields 127 otherwise.
\<close>

definition execute :: "kernel \<Rightarrow> SandboxConfiguration \<Rightarrow> trace \<Rightarrow> int option \<times> trace" where
  "execute k config t =
     (let (ok, t1) = sys k (Execute (command (sandbox config))) t
      in if ok then (None, t1) else (Some 127, t1))"

definition executeChild :: "host \<Rightarrow> SandboxManager \<Rightarrow> trace \<Rightarrow> int option \<times> trace" where
  "executeChild h m t0 =
     (let (ok, ms1, t1) = applyChild_loop h (mgr_config m) (executionOrder m) (modules m) t0
      in if \<not> ok then (Some 1, t1)
         else execute (kernel h) (mgr_config m) t1)"

fun cleanup_loop :: "host \<Rightarrow> string list \<Rightarrow> IModule std_map \<Rightarrow> trace \<Rightarrow> bool
     \<Rightarrow> bool \<times> IModule std_map \<times> trace" where
  "cleanup_loop h [] ms t ok = (ok, ms, t)"
| "cleanup_loop h (nm # nms) ms t ok =
     (case getModule ms nm of
        None \<Rightarrow> cleanup_loop h nms ms t ok
      | Some md \<Rightarrow>
          (let (ok1, md1, t1) = cleanup h md (t @ [Hook H_cleanup nm])
           in cleanup_loop h nms (map_put nm md1 ms) t1 (ok \<and> ok1)))"

definition cleanupModules :: "host \<Rightarrow> SandboxManager \<Rightarrow> trace \<Rightarrow> bool \<times> SandboxManager \<times> trace" where
  "cleanupModules h m t0 =
     (let (ok, ms1, t1) = cleanup_loop h (rev (executionOrder m)) (modules m) t0 True
      in (ok, m\<lparr>modules := ms1, executionOrder := [], mgr_childPid := - 1\<rparr>, t1))"


subsection \<open>run\<close>

text \<open>
  The wait-status macros of \<open><sys/wait.h>\<close> (glibc), on the 32-bit status word:
  \<open>WTERMSIG(s) = s & 0x7f\<close>, \<open>WEXITSTATUS(s) = (s & 0xff00) >> 8\<close>,
  \<open>WIFEXITED(s) = (WTERMSIG(s) == 0)\<close> and
  \<open>WIFSIGNALED(s) = (((signed char) ((s & 0x7f) + 1) >> 1) > 0)\<close>.
\<close>

definition WTERMSIG :: "32 word \<Rightarrow> 32 word" where
  "WTERMSIG s = s AND 0x7f"

definition WEXITSTATUS :: "32 word \<Rightarrow> 32 word" where
  "WEXITSTATUS s = drop_bit 8 (s AND 0xff00)"

definition WIFEXITED :: "32 word \<Rightarrow> bool" where
  "WIFEXITED s = (WTERMSIG s = 0)"

definition WIFSIGNALED :: "32 word \<Rightarrow> bool" where
  "WIFSIGNALED s = (sint (ucast ((s AND 0x7f) + 1) :: 8 word) div 2 > 0)"

definition SIGKILL :: int where "SIGKILL = 9"

text \<open>
  The read loop: every \<open>read\<close> that returns a positive count appends the buffer to
  \<open>result.stdout\<close> as a C string, that is up to its first NUL byte; the loop ends with
  the first \<open>read\<close> that returns nothing. \<open>pipe_data\<close> lists what the successive reads
  deliver.
\<close>

fun drain :: "int \<Rightarrow> string list \<Rightarrow> string \<times> trace \<Rightarrow> string \<times> trace" where
  "drain fd [] (out, t) = (out, t @ [Read fd])"
| "drain fd (c # cs) (out, t) =
     (if c = [] then (out, t @ [Read fd])
      else drain fd cs (out @ takeWhile (\<lambda>x. x \<noteq> CHR 0x00) c, t @ [Read fd]))"

text \<open>
  What the child does between \<open>fork\<close> and the end of its own code: it closes the read
  end of the pipe, names itself, and runs \<open>executeChild\<close>. The result is the value
  handed to \<open>_exit\<close> (\<open>None\<close> when the command has replaced the process) and the
  child's calls. The kernel answers a process from that process's own calls.
\<close>

definition child_main :: "host \<Rightarrow> SandboxManager \<Rightarrow> int option \<times> trace" where
  "child_main h m =
     (let t1 = snd (sys (kernel h) (Close (fst (pipeFd m))) []);
          t2 = snd (sys (kernel h) (Prctl PR_SET_NAME (ArgName (name (sandbox (mgr_config m))))) t1)
      in executeChild h m t2)"

record run_outcome =
  result :: SandboxResult
  manager :: SandboxManager
  parent_trace :: trace
  child :: "(int option \<times> trace) option"

text \<open>
  \<open>fork_pid h\<close> is what \<open>fork\<close> returns in the supervising process: negative on
  failure, otherwise the child's pid. \<open>child\<close> is \<open>None\<close> when no child was created.
\<close>

definition run :: "host \<Rightarrow> SandboxManager \<Rightarrow> run_outcome" where
  "run h m0 =
     (let r0 = \<lparr> exitCode = - 1, success = False, errorMessage = [], executionTimeMs = None,
                 stdout = [], stderr = [], childPid = - 1 \<rparr>;
          m1 = resolveDependencies (setState INITIALIZING m0);
          (ok1, ms2, t2) = initializeModules h (mgr_config m1) (executionOrder m1) (modules m1) [];
          m2 = m1\<lparr>modules := ms2\<rparr>
      in if \<not> ok1
         then \<lparr> result = r0\<lparr>errorMessage := ''Failed to initialize modules''\<rparr>,
                manager = setState ERROR m2, parent_trace = t2, child = None \<rparr>
         else
           let (ok3, t3) = sys (kernel h) Pipe t2
           in if \<not> ok3
              then \<lparr> result = r0\<lparr>errorMessage := ''Failed to create pipe''\<rparr>,
                     manager = setState ERROR m2, parent_trace = t3, child = None \<rparr>
              else
                let m3 = m2\<lparr>pipeFd := pipe_fds h\<rparr>;
                    t4 = t3 @ [Fork];
                    m4 = m3\<lparr>mgr_childPid := fork_pid h\<rparr>
                in if fork_pid h < 0
                   then
                     (let t5 = snd (sys (kernel h) (Close (fst (pipeFd m4))) t4);
                          t6 = snd (sys (kernel h) (Close (snd (pipeFd m4))) t5)
                      in \<lparr> result = r0\<lparr>errorMessage := ''Failed to fork process''\<rparr>,
                           manager = setState ERROR m4, parent_trace = t6, child = None \<rparr>)
                   else
                     let c = child_main h (m3\<lparr>mgr_childPid := 0\<rparr>);
                         t5 = snd (sys (kernel h) (Close (snd (pipeFd m4))) t4);
                         r1 = r0\<lparr>childPid := mgr_childPid m4\<rparr>;
                         m5 = setState RUNNING m4;
                         (ok6, ms6, t6) = prepareChildProcess h (mgr_config m5) (mgr_childPid m5)
                                            (executionOrder m5) (modules m5) t5;
                         m6 = m5\<lparr>modules := ms6\<rparr>;
                         t7 = (if \<not> ok6 then snd (sys (kernel h) (Kill (mgr_childPid m6) SIGKILL) t6)
                               else t6);
                         t8 = t7 @ [Waitpid (mgr_childPid m6)];
                         (waitedPid, status) = waitpid_result h;
                         (out, t9) = drain (fst (pipeFd m6)) (pipe_data h) (stdout r1, t8);
                         r2 = r1\<lparr>stdout := out\<rparr>;
                         t10 = snd (sys (kernel h) (Close (fst (pipeFd m6))) t9);
                         r3 = (if waitedPid = mgr_childPid m6
                               then (if WIFEXITED status
                                     then r2\<lparr>exitCode := uint (WEXITSTATUS status),
                                             success := (uint (WEXITSTATUS status) = 0)\<rparr>
                                     else if WIFSIGNALED status
                                     then r2\<lparr>exitCode := - uint (WTERMSIG status),
                                             errorMessage := ''Killed by signal: '' @
                                                             to_string (uint (WTERMSIG status)),
                                             success := False\<rparr>
                                     else r2)
                               else r2);
                         (okc, m7, t11) = cleanupModules h (setState STOPPING m6) t10;
                         m8 = setState STOPPED m7;
                         r4 = r3\<lparr>executionTimeMs := Some (snd (steady_clock_ms h) - fst (steady_clock_ms h))\<rparr>
                     in \<lparr> result = r4, manager = m8, parent_trace = t11, child = Some c \<rparr>)"


section \<open>Classes of calls\<close>

text \<open>The calls by which \<open>RootFS::setupMounts\<close> prepares the directories of the new root.\<close>

fun dir_setup :: "call \<Rightarrow> bool" where
  "dir_setup (IsDirectory p) = True"
| "dir_setup (MkdirRecursive p) = True"
| "dir_setup c = False"

text \<open>A mount whose flags include \<open>MS_PRIVATE\<close>.\<close>

fun mount_private :: "call \<Rightarrow> bool" where
  "mount_private (Mount s t ty fl d) = (fl AND MS_PRIVATE \<noteq> 0)"
| "mount_private c = False"

text \<open>The markers of hook entry.\<close>

fun is_hook :: "call \<Rightarrow> bool" where
  "is_hook (Hook h n) = True"
| "is_hook c = False"

text \<open>
  The calls that the hooks of the modules can make: everything but the markers, the
  process and descriptor primitives of the engine, and \<open>prctl\<close> with an option other
  than \<open>PR_SET_SECCOMP\<close>.
\<close>

fun module_call :: "call \<Rightarrow> bool" where
  "module_call (Hook h n) = False"
| "module_call (Unshare fl) = False"
| "module_call (Clone fl) = False"
| "module_call Fork = False"
| "module_call Pipe = False"
| "module_call (Close fd) = False"
| "module_call (Dup2 a b) = False"
| "module_call (Kill p sg) = False"
| "module_call (Waitpid p) = False"
| "module_call (Read fd) = False"
| "module_call (Execute argv) = False"
| "module_call (Prctl opt a) = (opt = PR_SET_SECCOMP)"
| "module_call c = True"

text \<open>\<open>t'\<close> continues \<open>t\<close> by calls that all satisfy \<open>P\<close>.\<close>

definition extends_with :: "(call \<Rightarrow> bool) \<Rightarrow> trace \<Rightarrow> trace \<Rightarrow> bool" where
  "extends_with P t t' = (\<exists>new. t' = t @ new \<and> (\<forall>c\<in>set new. P c))"

definition registered :: "IModule std_map \<Rightarrow> string \<Rightarrow> bool" where
  "registered ms nm = (getModule ms nm \<noteq> None)"

text \<open>\<open>a\<close> occurs in \<open>xs\<close> before the first \<open>b\<close>.\<close>

definition precedes :: "'a \<Rightarrow> 'a \<Rightarrow> 'a list \<Rightarrow> bool" where
  "precedes a b xs = (a \<in> set (takeWhile (\<lambda>x. x \<noteq> b) xs))"

text \<open>
  The invariant of the search that places RootFS before Mounts: the names visited are
  the names emitted, and once mounts is emitted rootfs precedes it.
\<close>

definition rm_inv :: "dfs_state \<Rightarrow> bool" where
  "rm_inv st = (set (fst st) = set (snd st) \<and>
                (''mounts'' \<in> set (snd st) \<longrightarrow> precedes ''rootfs'' ''mounts'' (snd st)))"

text \<open>
  The invariant of the search that makes the order a listing of the registry: the names
  visited are the names emitted, and no name is emitted twice.
\<close>

definition order_inv :: "dfs_state \<Rightarrow> bool" where
  "order_inv st = (set (fst st) = set (snd st) \<and> distinct (snd st))"

text \<open>
  A process that makes the calls \<open>cs\<close> one after another from the trace \<open>t\<close> and gives up
  at the first call that fails: the result tells whether every call was made and
  succeeded, and the trace reached.
\<close>

fun attempt :: "kernel \<Rightarrow> call list \<Rightarrow> trace \<Rightarrow> bool \<times> trace" where
  "attempt k [] t = (True, t)"
| "attempt k (c # cs) t = (if k t c then attempt k cs (t @ [c]) else (False, t @ [c]))"

section \<open>Concrete inputs\<close>

text \<open>A host on which every call succeeds and libseccomp knows every name.\<close>

definition host_ok :: host where
  "host_ok = \<lparr> kernel = (\<lambda>t c. True), getpid = 4242, seccomp_allows = (\<lambda>n. True),
               pipe_fds = (3, 4), fork_pid = 4243, waitpid_result = (4243, 0),
               pipe_data = [], steady_clock_ms = (0, 5) \<rparr>"

text \<open>A second Cgroups object, on another hierarchy.\<close>

definition Cgroups_alt :: IModule where
  "Cgroups_alt = Cgroups \<lparr> cg_state = UNINITIALIZED, cgroupPath = ''/tmp/cg'',
                            cgroupName = [], cgroupFullPath = [] \<rparr>"

text \<open>The same host, except that the child is reported killed by signal 9.\<close>

definition host_killed :: host where
  "host_killed = host_ok\<lparr>waitpid_result := (4243, 9)\<rparr>"

text \<open>The default configuration with \<open>enable_swap\<close> set.\<close>

definition config_swap :: SandboxConfiguration where
  "config_swap = createDefaultConfig\<lparr>resources := (resources createDefaultConfig)\<lparr>enable_swap := True\<rparr>\<rparr>"

text \<open>The default configuration with another seccomp policy selector.\<close>

definition config_policy :: "string \<Rightarrow> SandboxConfiguration" where
  "config_policy p = createDefaultConfig\<lparr>security := (security createDefaultConfig)\<lparr>seccomp_policy := p\<rparr>\<rparr>"

text \<open>The default configuration with a short rootfs path.\<close>

definition config_rootfs :: SandboxConfiguration where
  "config_rootfs = createDefaultConfig\<lparr>sandbox := (sandbox createDefaultConfig)\<lparr>rootfs_path := ''/srv/rootfs''\<rparr>\<rparr>"

text \<open>An engine with the default configuration and only the Namespaces module.\<close>

definition manager_ns :: SandboxManager where
  "manager_ns = snd (registerModule (Some Namespaces_new) (SandboxManager_new createDefaultConfig))"

text \<open>The engine as main.cpp sets it up, with the default configuration.\<close>

definition default_manager :: SandboxManager where
  "default_manager = registerDefaultModules (SandboxManager_new createDefaultConfig)"

text \<open>An engine with the default configuration and only the Seccomp module.\<close>

definition manager_seccomp :: SandboxManager where
  "manager_seccomp =
     snd (registerModule (Some (Seccomp Seccomp_new)) (SandboxManager_new createDefaultConfig))"

text \<open>
  An engine with the Cgroups module and a module whose \<open>initialize\<close> always fails
  (scenario 6 of the specification).
\<close>

definition manager_failing :: SandboxManager where
  "manager_failing =
     snd (registerModule (Some (Other ''dummy'' [] False True True True))
       (snd (registerModule (Some Cgroups_new) (SandboxManager_new createDefaultConfig))))"

section \<open>Properties of std::map\<close>

lemma map_of_map_put: "map_of (map_put k v es) = (map_of es)(k \<mapsto> v)"
  by (induction es) (auto simp: fun_upd_twist)

lemma keys_map_put: "fst ` set (map_put k v es) = insert k (fst ` set es)"
proof (induction es)
  case Nil
  show ?case by simp
next
  case (Cons e es)
  obtain k' v' where e: "e = (k', v')" by (cases e)
  show ?case unfolding e by (simp add: Cons.IH insert_commute)
qed

lemma sorted_map_put:
  "sorted_wrt (<) (map fst es) \<Longrightarrow> sorted_wrt (<) (map fst (map_put k v es))"
proof (induction es)
  case Nil
  then show ?case by simp
next
  case (Cons e es)
  obtain k' v' where e: "e = (k', v')" by (cases e)
  have ks: "fst ` set (map_put k v es) = insert k (fst ` set es)"
    by (rule keys_map_put)
  show ?case
  proof (cases "k < k'")
    case True
    then show ?thesis using Cons.prems e by auto
  next
    case False
    then show ?thesis using Cons e ks by (auto simp: less_le not_less)
  qed
qed

lemma map_count_sorted:
  "sorted_wrt (<) (map fst es) \<Longrightarrow> map_count es k = (if k \<in> fst ` set es then 1 else 0)"
  unfolding map_count_def
  by (induction es) (auto simp: filter_empty_conv)

lemma length_map_put_present:
  "sorted_wrt (<) (map fst es) \<Longrightarrow> k \<in> fst ` set es \<Longrightarrow> length (map_put k v es) = length es"
proof (induction es)
  case Nil
  then show ?case by simp
next
  case (Cons e es)
  obtain k' v' where e: "e = (k', v')" by (cases e)
  show ?case
  proof (cases "k < k'")
    case True
    then have "k \<notin> fst ` set (e # es)"
      using Cons.prems(1) e by (auto simp: image_iff)
    then show ?thesis using Cons.prems(2) by simp
  next
    case False
    then show ?thesis using Cons e by auto
  qed
qed

section \<open>Module registration\<close>

text \<open>
  Claim C10. \<open>registerModule\<close> returns false exactly for the null pointer. Registering
  a module \<open>x\<close> always succeeds; afterwards the registry holds \<open>x\<close> under its name and
  exactly one entry of that name, every other name is looked up as before, and when the
  name was already registered the number of entries is unchanged: the earlier module is
  replaced, not kept beside the new one. The registry is a \<open>std::map\<close>, so its keys
  are strictly ascending, before and after.
\<close>

theorem registerModule_replaces:
  assumes inv: "sorted_wrt (<) (map fst (modules m))"
  shows "(\<not> fst (registerModule md m) \<longleftrightarrow> md = None) \<and>
         (\<forall>x. md = Some x \<longrightarrow>
            fst (registerModule md m) \<and>
            getModule (modules (snd (registerModule md m))) (getName x) = Some x \<and>
            map_count (modules (snd (registerModule md m))) (getName x) = 1 \<and>
            (\<forall>k. k \<noteq> getName x \<longrightarrow>
               getModule (modules (snd (registerModule md m))) k = getModule (modules m) k) \<and>
            (map_count (modules m) (getName x) = 1 \<longrightarrow>
               length (modules (snd (registerModule md m))) = length (modules m)) \<and>
            sorted_wrt (<) (map fst (modules (snd (registerModule md m)))))"
proof (cases md)
  case None
  then show ?thesis by (simp add: registerModule_def)
next
  case (Some x)
  have s: "sorted_wrt (<) (map fst (map_put (getName x) x (modules m)))"
    using inv by (rule sorted_map_put)
  have c: "map_count (map_put (getName x) x (modules m)) (getName x) = 1"
    using s by (simp add: map_count_sorted keys_map_put)
  have l: "map_count (modules m) (getName x) = 1 \<Longrightarrow>
           length (map_put (getName x) x (modules m)) = length (modules m)"
    using inv by (auto simp: map_count_sorted length_map_put_present split: if_splits)
  show ?thesis
    using Some s c l
    by (simp add: registerModule_def getModule_def map_find_def map_of_map_put)
qed

theorem registerModule_replaces_witness:
  "sorted_wrt (<) (map fst (modules (snd (registerModule (Some Cgroups_new)
       (SandboxManager_new createDefaultConfig))))) \<and>
   map_count (modules (snd (registerModule (Some Cgroups_new)
       (SandboxManager_new createDefaultConfig)))) ''cgroups'' = 1 \<and>
   fst (registerModule (Some Cgroups_alt)
       (snd (registerModule (Some Cgroups_new) (SandboxManager_new createDefaultConfig)))) \<and>
   getModule (modules (snd (registerModule (Some Cgroups_alt)
       (snd (registerModule (Some Cgroups_new) (SandboxManager_new createDefaultConfig))))))
     ''cgroups'' = Some Cgroups_alt \<and>
   length (modules (snd (registerModule (Some Cgroups_alt)
       (snd (registerModule (Some Cgroups_new) (SandboxManager_new createDefaultConfig)))))) = 1 \<and>
   \<not> fst (registerModule None
       (snd (registerModule (Some Cgroups_new) (SandboxManager_new createDefaultConfig))))"
  using registerModule_replaces
          [of "snd (registerModule (Some Cgroups_new) (SandboxManager_new createDefaultConfig))"
              "Some Cgroups_alt"]
        registerModule_replaces
          [of "snd (registerModule (Some Cgroups_new) (SandboxManager_new createDefaultConfig))"
              "None"]
  by (simp add: registerModule_def SandboxManager_new_def Cgroups_new_def Cgroups_alt_def
                map_count_def)


section \<open>Interpreting the wait status\<close>

lemma WIFSIGNALED_not_WIFEXITED: "WIFSIGNALED s \<Longrightarrow> \<not> WIFEXITED s"
  by (auto simp: WIFSIGNALED_def WIFEXITED_def WTERMSIG_def)

lemmas engine_defs =
  run_def registerModule_def SandboxManager_new_def resolveDependencies_def setState_def
  dfs.simps getModule_def map_find_def Let_def sys_def child_main_def executeChild_def
  execute_def cleanupModules_def

lemmas namespaces_defs =
  Namespaces_new_def Namespaces_initialize_def hasNamespace_def Namespaces_applyChild_def
  applyUserNamespace_def

lemmas cgroups_defs =
  Cgroups_fields_def Cgroups_initialize_def createCgroup_def setMemoryLimits_def setCpuLimits_def
  setPidLimits_def setCgroupValue_def swap_max_path_def

lemmas seccomp_defs =
  Seccomp_new_def Seccomp_initialize_def Seccomp_applyChild_def generateDefaultPolicy_def
  loadProfile_def installFilter_def loadDefaultAllowlist_def

lemmas rootfs_defs =
  RootFS_fields_def RootFS_initialize_def RootFS_applyChild_def setupMounts_def doPivotRoot_def
  requiredDirs_def bootstrap_def

lemmas ms_defs =
  MS_RDONLY_def MS_NOSUID_def MS_NODEV_def MS_NOEXEC_def MS_REMOUNT_def MS_BIND_def MS_REC_def
  MS_PRIVATE_def MS_STRICTATIME_def

lemmas caps_defs = Caps_initialize_def Caps_applyChild_def Caps_cleanup_def capabilityFromName_def

lemmas mounts_defs =
  Mounts_applyChild_def applyBindMount_def ensureMountTarget_def Mounts_cleanup_def

lemmas module_new_defs =
  Namespaces_new_def Cgroups_new_def Caps_new_def RootFS_new_def Mounts_new_def AIAgent_new_def

lemmas parent_defs =
  AIAgent_initialize_def Cgroups_prepareChild_def addToCgroup_def Cgroups_cleanup_def
  removeCgroup_def Seccomp_cleanup_def

lemmas to_string_defs = to_string_def string_of_nat.simps digit_char_def

lemmas wait_defs = WIFEXITED_def WIFSIGNALED_def WTERMSIG_def WEXITSTATUS_def

lemmas eval_defs =
  engine_defs registerDefaultModules_def module_new_defs namespaces_defs cgroups_defs
  seccomp_defs rootfs_defs caps_defs mounts_defs parent_defs to_string_defs host_ok_def
  createDefaultConfig_def

text \<open>
  Claim C9. Take a run that created its child and whose \<open>waitpid\<close> returned the
  child's pid. Then \<open>success\<close> holds exactly when the child exited normally with status
  0; after a normal exit \<open>exitCode\<close> is the exit status (so a non-zero status gives
  \<open>success = false\<close>); and when a signal killed the child, \<open>success\<close> is false and
  \<open>exitCode\<close> is minus the signal number.
\<close>

theorem run_wait_status:
  assumes forked: "child (run h m) \<noteq> None"
      and waited: "fst (waitpid_result h) = fork_pid h"
  shows "(success (result (run h m)) \<longleftrightarrow>
            WIFEXITED (snd (waitpid_result h)) \<and> uint (WEXITSTATUS (snd (waitpid_result h))) = 0) \<and>
         (WIFEXITED (snd (waitpid_result h)) \<longrightarrow>
            exitCode (result (run h m)) = uint (WEXITSTATUS (snd (waitpid_result h)))) \<and>
         (WIFSIGNALED (snd (waitpid_result h)) \<longrightarrow>
            \<not> success (result (run h m)) \<and>
            exitCode (result (run h m)) = - uint (WTERMSIG (snd (waitpid_result h))))"
  using forked waited WIFSIGNALED_not_WIFEXITED[of "snd (waitpid_result h)"]
  by (auto simp: run_def Let_def cleanupModules_def setState_def split: prod.splits if_splits)

theorem run_wait_status_witness:
  "child (run host_ok manager_ns) \<noteq> None \<and>
   fst (waitpid_result host_ok) = fork_pid host_ok \<and>
   WIFEXITED (snd (waitpid_result host_ok)) \<and>
   success (result (run host_ok manager_ns)) \<and>
   exitCode (result (run host_ok manager_ns)) = 0 \<and>
   child (run host_killed manager_ns) \<noteq> None \<and>
   fst (waitpid_result host_killed) = fork_pid host_killed \<and>
   WIFSIGNALED (snd (waitpid_result host_killed)) \<and>
   \<not> success (result (run host_killed manager_ns)) \<and>
   exitCode (result (run host_killed manager_ns)) = - 9"
  using run_wait_status[of host_ok manager_ns] run_wait_status[of host_killed manager_ns]
  by (simp add: engine_defs namespaces_defs to_string_defs wait_defs manager_ns_def
                host_ok_def host_killed_def createDefaultConfig_def)


section \<open>The CPU quota\<close>

text \<open>
  The quota written to cpu.max is the 32-bit product: 50 percent gives 50000, and
  2147484 percent, whose product with 1000 exceeds the range of \<open>int\<close>, gives
  -2147483296.
\<close>

lemma setCpuLimits_default:
  "setCpuLimits (\<lambda>t c. True) createDefaultConfig
     (Cgroups_fields\<lparr>cgroupName := ''c''\<rparr>) [] =
   (True, [WriteFile ''/sys/fs/cgroup/c/cpu.max'' ''50000 100000''])"
  by (simp add: setCpuLimits_def setCgroupValue_def sys_def to_string_defs createDefaultConfig_def
                Cgroups_fields_def)

lemma setCpuLimits_wraps:
  "setCpuLimits (\<lambda>t c. True)
     (createDefaultConfig\<lparr>resources :=
        (resources createDefaultConfig)\<lparr>cpu_quota_percent := 2147484\<rparr>\<rparr>)
     (Cgroups_fields\<lparr>cgroupName := ''c''\<rparr>) [] =
   (True, [WriteFile ''/sys/fs/cgroup/c/cpu.max'' ''-2147483296 100000''])"
  by (simp add: setCpuLimits_def setCgroupValue_def sys_def to_string_defs createDefaultConfig_def
                Cgroups_fields_def)

section \<open>The swap limit\<close>

text \<open>
  Claim C8 as stated fails. With the default configuration (\<open>enable_swap = false\<close>)
  \<open>Cgroups::initialize\<close> succeeds and writes memory.max, memory.high, cpu.max and
  pids.max, but not memory.swap.max; with \<open>enable_swap = true\<close> it does write "0" to
  memory.swap.max.
\<close>

theorem swap_limit_counterexample:
  "\<not> enable_swap (resources createDefaultConfig) \<and>
   Cgroups_initialize host_ok createDefaultConfig Cgroups_fields [] =
     (True,
      \<lparr> cg_state = INITIALIZED, cgroupPath = ''/sys/fs/cgroup'',
        cgroupName = ''sandbox-sandbox-default-4242'',
        cgroupFullPath = ''/sys/fs/cgroup/sandbox-sandbox-default-4242'' \<rparr>,
      [MkdirRecursive ''/sys/fs/cgroup/sandbox-sandbox-default-4242'',
       WriteFile ''/sys/fs/cgroup/sandbox-sandbox-default-4242/memory.max'' ''536870912'',
       WriteFile ''/sys/fs/cgroup/sandbox-sandbox-default-4242/memory.high'' ''429496729'',
       WriteFile ''/sys/fs/cgroup/sandbox-sandbox-default-4242/cpu.max'' ''50000 100000'',
       WriteFile ''/sys/fs/cgroup/sandbox-sandbox-default-4242/pids.max'' ''100'']) \<and>
   enable_swap (resources config_swap) \<and>
   WriteFile ''/sys/fs/cgroup/sandbox-sandbox-default-4242/memory.swap.max'' ''0''
     \<in> set (snd (snd (Cgroups_initialize host_ok config_swap Cgroups_fields [])))"
  by (simp add: cgroups_defs to_string_defs sys_def host_ok_def createDefaultConfig_def
                config_swap_def)

text \<open>
  Claim C8, amended. During \<open>initialize\<close> the Cgroups module writes to the cgroup's
  memory.swap.max only the value "0" and only when \<open>enable_swap\<close> is true (the flag
  enables the swap limit); whenever \<open>enable_swap\<close> is true and \<open>initialize\<close> succeeds
  the write has been made, and with \<open>enable_swap = false\<close> no write to that file is
  made at all.
\<close>

theorem swap_limit_when_enabled:
  "\<exists>new. snd (snd (Cgroups_initialize h config f t0)) = t0 @ new \<and>
     (\<forall>v. WriteFile (swap_max_path (fst (snd (Cgroups_initialize h config f t0)))) v \<in> set new
          \<longrightarrow> v = ''0'' \<and> enable_swap (resources config)) \<and>
     (enable_swap (resources config) \<and> fst (Cgroups_initialize h config f t0)
          \<longrightarrow> WriteFile (swap_max_path (fst (snd (Cgroups_initialize h config f t0)))) ''0''
                \<in> set new)"
  by (auto simp: Cgroups_initialize_def createCgroup_def setMemoryLimits_def setCpuLimits_def
                 setPidLimits_def setCgroupValue_def swap_max_path_def sys_def Let_def
           split: prod.splits if_splits)

theorem swap_limit_when_enabled_witness:
  "enable_swap (resources config_swap) \<and>
   fst (Cgroups_initialize host_ok config_swap Cgroups_fields []) \<and>
   swap_max_path (fst (snd (Cgroups_initialize host_ok config_swap Cgroups_fields []))) =
     ''/sys/fs/cgroup/sandbox-sandbox-default-4242/memory.swap.max'' \<and>
   WriteFile ''/sys/fs/cgroup/sandbox-sandbox-default-4242/memory.swap.max'' ''0''
     \<in> set (snd (snd (Cgroups_initialize host_ok config_swap Cgroups_fields [])))"
  using swap_limit_when_enabled[of host_ok config_swap Cgroups_fields "[]"]
  by (simp add: cgroups_defs to_string_defs sys_def host_ok_def createDefaultConfig_def
                config_swap_def)


section \<open>The seccomp policy selector\<close>

text \<open>
  Claim C7 as stated fails for the selector "off". A fresh Seccomp module initialised
  with \<open>seccomp_policy = "off"\<close> (and no profile path) is enabled, builds the built-in
  filter with the default action it was constructed with (ERRNO), and its
  \<open>applyChild\<close> installs that filter with \<open>prctl(PR_SET_SECCOMP, ...)\<close>.
\<close>

theorem seccomp_off_counterexample:
  "seccomp_policy (security (config_policy ''off'')) = ''off'' \<and>
   Seccomp_initialize host_ok (config_policy ''off'') Seccomp_new [] =
     (True,
      \<lparr> sc_state = INITIALIZED, defaultAction = ACTION_ERRNO,
        filterBlob = Bpf ACTION_ERRNO essentialCalls, sc_enabled = True \<rparr>,
      [SeccompInit ACTION_ERRNO, SeccompExportBpf False, SeccompExportBpf True]) \<and>
   Seccomp_applyChild host_ok
      \<lparr> sc_state = INITIALIZED, defaultAction = ACTION_ERRNO,
        filterBlob = Bpf ACTION_ERRNO essentialCalls, sc_enabled = True \<rparr> [] =
     (True,
      \<lparr> sc_state = ModuleState.RUNNING, defaultAction = ACTION_ERRNO,
        filterBlob = Bpf ACTION_ERRNO essentialCalls, sc_enabled = True \<rparr>,
      [Prctl PR_SET_SECCOMP (ArgFilter SECCOMP_MODE_FILTER (Bpf ACTION_ERRNO essentialCalls))])"
  by (simp add: seccomp_defs sys_def host_ok_def config_policy_def createDefaultConfig_def Let_def)

text \<open>
  Claim C7, amended. The module is disabled exactly when both
  \<open>security.seccomp_policy\<close> and \<open>security.seccomp_profile_path\<close> are empty; then
  \<open>initialize\<close> succeeds without any call and without touching the filter blob, and
  \<open>applyChild\<close> makes no call. For the selectors the code knows the default action is
  ERRNO for "default", KILL for "strict", LOG for "log" and ALLOW for "allow". "off" is
  not among them: the module stays enabled, the default action keeps the value it had,
  and (without a profile path) a successful \<open>initialize\<close> has built the filter, which
  \<open>applyChild\<close> then tries to install.
\<close>

theorem seccomp_policy_selection:
  "(sc_enabled (fst (snd (Seccomp_initialize h config f0 t0))) \<longleftrightarrow>
      seccomp_policy (security config) \<noteq> [] \<or> seccomp_profile_path (security config) \<noteq> []) \<and>
   (seccomp_policy (security config) = [] \<and> seccomp_profile_path (security config) = [] \<longrightarrow>
      fst (Seccomp_initialize h config f0 t0) \<and>
      snd (snd (Seccomp_initialize h config f0 t0)) = t0 \<and>
      filterBlob (fst (snd (Seccomp_initialize h config f0 t0))) = filterBlob f0 \<and>
      (\<forall>t. snd (snd (Seccomp_applyChild h (fst (snd (Seccomp_initialize h config f0 t0))) t)) = t)) \<and>
   (seccomp_policy (security config) = ''default'' \<longrightarrow>
      defaultAction (fst (snd (Seccomp_initialize h config f0 t0))) = ACTION_ERRNO) \<and>
   (seccomp_policy (security config) = ''strict'' \<longrightarrow>
      defaultAction (fst (snd (Seccomp_initialize h config f0 t0))) = ACTION_KILL) \<and>
   (seccomp_policy (security config) = ''log'' \<longrightarrow>
      defaultAction (fst (snd (Seccomp_initialize h config f0 t0))) = ACTION_LOG) \<and>
   (seccomp_policy (security config) = ''allow'' \<longrightarrow>
      defaultAction (fst (snd (Seccomp_initialize h config f0 t0))) = ACTION_ALLOW) \<and>
   (seccomp_policy (security config) = ''off'' \<longrightarrow>
      sc_enabled (fst (snd (Seccomp_initialize h config f0 t0))) \<and>
      defaultAction (fst (snd (Seccomp_initialize h config f0 t0))) = defaultAction f0 \<and>
      (seccomp_profile_path (security config) = [] \<and> fst (Seccomp_initialize h config f0 t0) \<longrightarrow>
         filterBlob (fst (snd (Seccomp_initialize h config f0 t0))) =
           Bpf (defaultAction f0) (filter (seccomp_allows h) essentialCalls) \<and>
         (\<forall>t. Prctl PR_SET_SECCOMP (ArgFilter SECCOMP_MODE_FILTER
                 (filterBlob (fst (snd (Seccomp_initialize h config f0 t0)))))
               \<in> set (snd (snd (Seccomp_applyChild h (fst (snd (Seccomp_initialize h config f0 t0))) t))))))"
proof -
  let ?p = "seccomp_policy (security config)"
  consider (dflt) "?p = ''default''" | (strict) "?p = ''strict''" | (log) "?p = ''log''"
    | (allow) "?p = ''allow''" | (off) "?p = ''off''" | (none) "?p = []"
    | (other) "?p \<noteq> ''default''" "?p \<noteq> ''strict''" "?p \<noteq> ''log''" "?p \<noteq> ''allow''"
              "?p \<noteq> ''off''" "?p \<noteq> []"
    by blast
  then show ?thesis
  proof cases
    case dflt
    then show ?thesis
      by (simp add: Seccomp_initialize_def generateDefaultPolicy_def loadProfile_def sys_def Let_def
               split: prod.splits)
  next
    case strict
    then show ?thesis
      by (simp add: Seccomp_initialize_def generateDefaultPolicy_def loadProfile_def sys_def Let_def
               split: prod.splits)
  next
    case log
    then show ?thesis
      by (simp add: Seccomp_initialize_def generateDefaultPolicy_def loadProfile_def sys_def Let_def
               split: prod.splits)
  next
    case allow
    then show ?thesis
      by (simp add: Seccomp_initialize_def generateDefaultPolicy_def loadProfile_def sys_def Let_def
               split: prod.splits)
  next
    case off
    then show ?thesis
      by (simp add: Seccomp_initialize_def Seccomp_applyChild_def generateDefaultPolicy_def
                    loadProfile_def sys_def Let_def
               split: prod.splits)
  next
    case none
    then show ?thesis
      by (simp add: Seccomp_initialize_def Seccomp_applyChild_def generateDefaultPolicy_def
                    loadProfile_def sys_def Let_def
               split: prod.splits)
  next
    case other
    then show ?thesis
      by (simp add: Seccomp_initialize_def generateDefaultPolicy_def loadProfile_def sys_def Let_def
               split: prod.splits)
  qed
qed

theorem seccomp_policy_selection_witness:
  "seccomp_policy (security (config_policy [])) = [] \<and>
   seccomp_profile_path (security (config_policy [])) = [] \<and>
   \<not> sc_enabled (fst (snd (Seccomp_initialize host_ok (config_policy []) Seccomp_new []))) \<and>
   snd (snd (Seccomp_initialize host_ok (config_policy []) Seccomp_new [])) = [] \<and>
   seccomp_policy (security (config_policy ''default'')) = ''default'' \<and>
   defaultAction (fst (snd (Seccomp_initialize host_ok (config_policy ''default'') Seccomp_new [])))
     = ACTION_ERRNO \<and>
   seccomp_policy (security (config_policy ''strict'')) = ''strict'' \<and>
   defaultAction (fst (snd (Seccomp_initialize host_ok (config_policy ''strict'') Seccomp_new [])))
     = ACTION_KILL \<and>
   seccomp_policy (security (config_policy ''log'')) = ''log'' \<and>
   defaultAction (fst (snd (Seccomp_initialize host_ok (config_policy ''log'') Seccomp_new [])))
     = ACTION_LOG \<and>
   seccomp_policy (security (config_policy ''allow'')) = ''allow'' \<and>
   defaultAction (fst (snd (Seccomp_initialize host_ok (config_policy ''allow'') Seccomp_new [])))
     = ACTION_ALLOW \<and>
   seccomp_policy (security (config_policy ''off'')) = ''off'' \<and>
   fst (Seccomp_initialize host_ok (config_policy ''off'') Seccomp_new []) \<and>
   sc_enabled (fst (snd (Seccomp_initialize host_ok (config_policy ''off'') Seccomp_new []))) \<and>
   filterBlob (fst (snd (Seccomp_initialize host_ok (config_policy ''off'') Seccomp_new [])))
     = Bpf ACTION_ERRNO essentialCalls"
  using seccomp_policy_selection[of host_ok "config_policy []" Seccomp_new "[]"]
        seccomp_policy_selection[of host_ok "config_policy ''default''" Seccomp_new "[]"]
        seccomp_policy_selection[of host_ok "config_policy ''strict''" Seccomp_new "[]"]
        seccomp_policy_selection[of host_ok "config_policy ''log''" Seccomp_new "[]"]
        seccomp_policy_selection[of host_ok "config_policy ''allow''" Seccomp_new "[]"]
        seccomp_policy_selection[of host_ok "config_policy ''off''" Seccomp_new "[]"]
  by (simp add: seccomp_defs sys_def host_ok_def config_policy_def createDefaultConfig_def Let_def)

section \<open>The pivot sequence\<close>

text \<open>
  Claim C5 as stated fails. On a host where every call succeeds, \<open>RootFS::applyChild\<close>
  for the root \<open>/srv/rootfs\<close> makes exactly the calls listed: there is no mount with
  \<open>MS_PRIVATE|MS_REC\<close>, and the old root is \<open>/srv/rootfs/oldroot\<close>, unmounted as
  \<open>/oldroot\<close>, not \<open>.oldroot\<close>.
\<close>

theorem pivot_counterexample:
  "RootFS_initialize (kernel host_ok) config_rootfs RootFS_fields [] =
     (True,
      \<lparr> rf_state = INITIALIZED, rootPath = ''/srv/rootfs'', oldRootPath = ''/oldroot'',
        bootstrapRequired = False \<rparr>,
      [Exists ''/srv/rootfs'']) \<and>
   RootFS_applyChild (kernel host_ok)
      \<lparr> rf_state = INITIALIZED, rootPath = ''/srv/rootfs'', oldRootPath = ''/oldroot'',
        bootstrapRequired = False \<rparr> [] =
     (True,
      \<lparr> rf_state = ModuleState.RUNNING, rootPath = ''/srv/rootfs'', oldRootPath = ''/oldroot'',
        bootstrapRequired = False \<rparr>,
      [IsDirectory ''/srv/rootfs/bin'', IsDirectory ''/srv/rootfs/etc'',
       IsDirectory ''/srv/rootfs/home'', IsDirectory ''/srv/rootfs/lib'',
       IsDirectory ''/srv/rootfs/lib64'', IsDirectory ''/srv/rootfs/media'',
       IsDirectory ''/srv/rootfs/mnt'', IsDirectory ''/srv/rootfs/opt'',
       IsDirectory ''/srv/rootfs/root'', IsDirectory ''/srv/rootfs/sbin'',
       IsDirectory ''/srv/rootfs/srv'', IsDirectory ''/srv/rootfs/tmp'',
       IsDirectory ''/srv/rootfs/usr'', IsDirectory ''/srv/rootfs/var'',
       MkdirRecursive ''/srv/rootfs/oldroot'',
       Mount ''/srv/rootfs'' ''/srv/rootfs'' [] (MS_BIND OR MS_REC) None,
       PivotRoot ''/srv/rootfs'' ''/srv/rootfs/oldroot'',
       Chdir ''/'',
       Unmount ''/oldroot'' MNT_DETACH,
       Mount ''proc'' ''/proc'' ''proc'' (MS_NOSUID OR MS_NOEXEC OR MS_NODEV) None,
       Mount ''sysfs'' ''/sys'' ''sysfs'' (MS_NOSUID OR MS_NOEXEC OR MS_NODEV) None,
       Mount ''tmpfs'' ''/dev'' ''tmpfs'' (MS_NOSUID OR MS_STRICTATIME) (Some ''mode=755'')]) \<and>
   Mount [] ''/srv/rootfs'' [] (MS_PRIVATE OR MS_REC) None
     \<notin> set (snd (snd (RootFS_applyChild (kernel host_ok)
          \<lparr> rf_state = INITIALIZED, rootPath = ''/srv/rootfs'', oldRootPath = ''/oldroot'',
            bootstrapRequired = False \<rparr> []))) \<and>
   PivotRoot ''/srv/rootfs'' ''/srv/rootfs/.oldroot''
     \<notin> set (snd (snd (RootFS_applyChild (kernel host_ok)
          \<lparr> rf_state = INITIALIZED, rootPath = ''/srv/rootfs'', oldRootPath = ''/oldroot'',
            bootstrapRequired = False \<rparr> []))) \<and>
   Unmount ''/.oldroot'' MNT_DETACH
     \<notin> set (snd (snd (RootFS_applyChild (kernel host_ok)
          \<lparr> rf_state = INITIALIZED, rootPath = ''/srv/rootfs'', oldRootPath = ''/oldroot'',
            bootstrapRequired = False \<rparr> [])))"
  by (simp add: rootfs_defs sys_def host_ok_def config_rootfs_def createDefaultConfig_def Let_def)

lemma setupMounts_loop_calls:
  "\<exists>pre. setupMounts_loop k root dirs t = t @ pre \<and> (\<forall>c\<in>set pre. dir_setup c)"
proof (induction dirs arbitrary: t)
  case Nil
  show ?case by simp
next
  case (Cons d dirs)
  let ?t1 = "t @ [IsDirectory (root @ d)]"
  let ?t2 = "if \<not> k t (IsDirectory (root @ d)) then ?t1 @ [MkdirRecursive (root @ d)] else ?t1"
  obtain pre where pre: "setupMounts_loop k root dirs ?t2 = ?t2 @ pre" "\<forall>c\<in>set pre. dir_setup c"
    using Cons.IH[of ?t2] by blast
  have step: "setupMounts_loop k root (d # dirs) t = setupMounts_loop k root dirs ?t2"
    by (simp add: sys_def Let_def)
  show ?case
  proof (cases "k t (IsDirectory (root @ d))")
    case True
    then show ?thesis using pre step
      by (intro exI[of _ "IsDirectory (root @ d) # pre"]) simp
  next
    case False
    then show ?thesis using pre step
      by (intro exI[of _ "IsDirectory (root @ d) # MkdirRecursive (root @ d) # pre"]) simp
  qed
qed

text \<open>
  Claim C5, amended. Whenever the RootFS module has been initialised and its
  \<open>applyChild\<close> succeeds, the calls it made are, in this order: checks and creations of
  the required directories, the creation of \<open>rootfs_path/oldroot\<close>, the bind mount of
  \<open>rootfs_path\<close> onto itself with \<open>MS_BIND|MS_REC\<close>,
  \<open>pivot_root(rootfs_path, rootfs_path/oldroot)\<close>, \<open>chdir("/")\<close>,
  \<open>umount2("/oldroot", MNT_DETACH)\<close>, and the mounts of /proc, /sys and /dev. None
  of its mounts carries \<open>MS_PRIVATE\<close>.
\<close>

theorem pivot_sequence:
  assumes init: "RootFS_initialize k0 config f0 ti = (True, f, ti')"
      and app: "RootFS_applyChild k f t0 = (True, f', t1)"
  shows "\<exists>pre. t1 = t0 @ pre @
            [MkdirRecursive (rootfs_path (sandbox config) @ ''/oldroot''),
             Mount (rootfs_path (sandbox config)) (rootfs_path (sandbox config)) [] (MS_BIND OR MS_REC) None,
             PivotRoot (rootfs_path (sandbox config)) (rootfs_path (sandbox config) @ ''/oldroot''),
             Chdir ''/'',
             Unmount ''/oldroot'' MNT_DETACH,
             Mount ''proc'' ''/proc'' ''proc'' (MS_NOSUID OR MS_NOEXEC OR MS_NODEV) None,
             Mount ''sysfs'' ''/sys'' ''sysfs'' (MS_NOSUID OR MS_NOEXEC OR MS_NODEV) None,
             Mount ''tmpfs'' ''/dev'' ''tmpfs'' (MS_NOSUID OR MS_STRICTATIME) (Some ''mode=755'')] \<and>
          (\<forall>c\<in>set pre. dir_setup c) \<and>
          (\<forall>c\<in>set (drop (length t0) t1). \<not> mount_private c)"
proof -
  have r: "rootPath f = rootfs_path (sandbox config)" and o: "oldRootPath f = ''/oldroot''"
    using init by (auto simp: RootFS_initialize_def Let_def split: prod.splits if_splits)
  obtain pre where pre: "setupMounts_loop k (rootfs_path (sandbox config)) requiredDirs t0 = t0 @ pre"
      "\<forall>c\<in>set pre. dir_setup c"
    using setupMounts_loop_calls by blast
  have np: "\<forall>c\<in>set pre. \<not> mount_private c"
  proof
    fix c assume "c \<in> set pre"
    then have "dir_setup c" using pre(2) by blast
    then show "\<not> mount_private c" by (cases c) auto
  qed
  have t1: "t1 = t0 @ pre @
            [MkdirRecursive (rootfs_path (sandbox config) @ ''/oldroot''),
             Mount (rootfs_path (sandbox config)) (rootfs_path (sandbox config)) [] (MS_BIND OR MS_REC) None,
             PivotRoot (rootfs_path (sandbox config)) (rootfs_path (sandbox config) @ ''/oldroot''),
             Chdir ''/'',
             Unmount ''/oldroot'' MNT_DETACH,
             Mount ''proc'' ''/proc'' ''proc'' (MS_NOSUID OR MS_NOEXEC OR MS_NODEV) None,
             Mount ''sysfs'' ''/sys'' ''sysfs'' (MS_NOSUID OR MS_NOEXEC OR MS_NODEV) None,
             Mount ''tmpfs'' ''/dev'' ''tmpfs'' (MS_NOSUID OR MS_STRICTATIME) (Some ''mode=755'')]"
    using app
    by (auto simp: RootFS_applyChild_def setupMounts_def doPivotRoot_def sys_def Let_def pre(1) r o
             split: prod.splits if_splits)
  show ?thesis
    using pre(2) np
    by (intro exI[of _ pre]) (simp add: t1 ms_defs)
qed

theorem pivot_sequence_witness:
  "fst (RootFS_initialize (kernel host_ok) config_rootfs RootFS_fields []) \<and>
   fst (RootFS_applyChild (kernel host_ok)
          (fst (snd (RootFS_initialize (kernel host_ok) config_rootfs RootFS_fields []))) []) \<and>
   (\<exists>pre. snd (snd (RootFS_applyChild (kernel host_ok)
          (fst (snd (RootFS_initialize (kernel host_ok) config_rootfs RootFS_fields []))) [])) =
        pre @
        [MkdirRecursive ''/srv/rootfs/oldroot'',
         Mount ''/srv/rootfs'' ''/srv/rootfs'' [] (MS_BIND OR MS_REC) None,
         PivotRoot ''/srv/rootfs'' ''/srv/rootfs/oldroot'',
         Chdir ''/'',
         Unmount ''/oldroot'' MNT_DETACH,
         Mount ''proc'' ''/proc'' ''proc'' (MS_NOSUID OR MS_NOEXEC OR MS_NODEV) None,
         Mount ''sysfs'' ''/sys'' ''sysfs'' (MS_NOSUID OR MS_NOEXEC OR MS_NODEV) None,
         Mount ''tmpfs'' ''/dev'' ''tmpfs'' (MS_NOSUID OR MS_STRICTATIME) (Some ''mode=755'')])"
proof -
  obtain f ti where init: "RootFS_initialize (kernel host_ok) config_rootfs RootFS_fields [] = (True, f, ti)"
    by (simp add: rootfs_defs sys_def host_ok_def config_rootfs_def createDefaultConfig_def Let_def)
  obtain f' t1 where app: "RootFS_applyChild (kernel host_ok) f [] = (True, f', t1)"
    by (simp add: rootfs_defs sys_def host_ok_def Let_def)
  have rp: "rootfs_path (sandbox config_rootfs) = ''/srv/rootfs''"
    by (simp add: config_rootfs_def createDefaultConfig_def)
  from pivot_sequence[OF init app] show ?thesis
    by (auto simp: init app rp)
qed


section \<open>What the hooks of the modules can call\<close>

lemma extends_with_refl [simp]: "extends_with P t t"
  by (simp add: extends_with_def)

lemma extends_with_append [simp]: "extends_with P t (t @ xs) \<longleftrightarrow> (\<forall>c\<in>set xs. P c)"
  by (auto simp: extends_with_def)

lemma extends_with_trans:
  "extends_with P t t' \<Longrightarrow> extends_with P t' t'' \<Longrightarrow> extends_with P t t''"
  by (auto simp: extends_with_def)

lemma extends_with_pre:
  "extends_with P (t @ xs) t' \<Longrightarrow> \<forall>c\<in>set xs. P c \<Longrightarrow> extends_with P t t'"
  by (auto simp: extends_with_def)

lemma Namespaces_applyChild_calls:
  "extends_with module_call t (snd (snd (Namespaces_applyChild k config f t)))"
  by (simp add: Namespaces_applyChild_def applyUserNamespace_def sys_def Let_def
           split: prod.splits)

lemma Seccomp_applyChild_calls:
  "extends_with module_call t (snd (snd (Seccomp_applyChild h f t)))"
  by (simp add: Seccomp_applyChild_def installFilter_def loadDefaultAllowlist_def
                generateDefaultPolicy_def sys_def Let_def
           split: prod.splits)

lemma ambient_loop_trace: "snd (ambient_loop k cs f t) = t @ map CapUpdateAmbient cs"
  by (induction cs arbitrary: f t) (simp_all add: sys_def Let_def)

lemma Caps_applyChild_calls:
  "extends_with module_call t (snd (snd (Caps_applyChild k config f t)))"
  by (simp add: Caps_applyChild_def sys_def Let_def case_prod_beta ambient_loop_trace)

lemma setupMounts_loop_ext:
  "\<forall>c\<in>set xs. module_call c \<Longrightarrow> extends_with module_call t (setupMounts_loop k root dirs (t @ xs))"
proof (induction dirs arbitrary: xs)
  case Nil
  then show ?case by simp
next
  case (Cons d dirs)
  show ?case
  proof (cases "k (t @ xs) (IsDirectory (root @ d))")
    case True
    have "\<forall>x\<in>set (xs @ [IsDirectory (root @ d)]). module_call x" using Cons.prems by simp
    from Cons.IH[OF this] True show ?thesis by (simp add: sys_def Let_def)
  next
    case False
    have "\<forall>x\<in>set (xs @ [IsDirectory (root @ d), MkdirRecursive (root @ d)]). module_call x"
      using Cons.prems by simp
    from Cons.IH[OF this] False show ?thesis by (simp add: sys_def Let_def)
  qed
qed

lemma RootFS_applyChild_calls:
  "extends_with module_call t (snd (snd (RootFS_applyChild k f t)))"
proof -
  have s: "extends_with module_call t (setupMounts_loop k (rootPath f) requiredDirs t)"
    using setupMounts_loop_ext[of "[]" t k "rootPath f" requiredDirs] by simp
  then obtain pre where pre: "setupMounts_loop k (rootPath f) requiredDirs t = t @ pre"
      "\<forall>c\<in>set pre. module_call c"
    by (auto simp: extends_with_def)
  show ?thesis
    by (simp add: RootFS_applyChild_def setupMounts_def doPivotRoot_def sys_def Let_def pre
             split: prod.splits)
qed

lemma applyBindMount_calls:
  "extends_with module_call t (snd (applyBindMount k mnt t))"
  by (simp add: applyBindMount_def ensureMountTarget_def sys_def Let_def split: prod.splits)

lemma Mounts_applyChild_loop_calls:
  "extends_with module_call t (snd (snd (Mounts_applyChild_loop k mnts f t)))"
proof (induction mnts arbitrary: f t)
  case Nil
  show ?case by simp
next
  case (Cons mnt mnts)
  obtain ok t1 where a: "applyBindMount k mnt t = (ok, t1)" by (cases "applyBindMount k mnt t")
  have e1: "extends_with module_call t t1" using applyBindMount_calls[of t k mnt] a by simp
  show ?case
  proof (cases ok)
    case False
    then show ?thesis using a e1 by simp
  next
    case True
    then show ?thesis using a e1 Cons.IH extends_with_trans by (auto simp: Let_def)
  qed
qed

lemma Mounts_applyChild_calls:
  "extends_with module_call t (snd (snd (Mounts_applyChild k config f t)))"
  using Mounts_applyChild_loop_calls[of t k "bind_mounts (mounts config)" f]
  by (simp add: Mounts_applyChild_def Let_def case_prod_beta)

lemma applyChild_calls:
  "extends_with module_call t (snd (snd (applyChild h config md t)))"
  using Namespaces_applyChild_calls Seccomp_applyChild_calls Caps_applyChild_calls
        RootFS_applyChild_calls Mounts_applyChild_calls
  by (cases md) (simp_all add: Let_def case_prod_beta)

lemma applyChild_name: "getName (fst (snd (applyChild h config md t))) = getName md"
  by (cases md) (simp_all add: Let_def case_prod_beta)


lemma module_call_not_hook: "module_call c \<Longrightarrow> \<not> is_hook c"
  by (cases c) auto

lemma getModule_map_put:
  "getModule (map_put k v ms) x = (if x = k then Some v else getModule ms x)"
  by (simp add: getModule_def map_find_def map_of_map_put)

lemma registered_map_put: "registered ms x \<Longrightarrow> registered (map_put k v ms) x"
  by (simp add: registered_def getModule_map_put)

lemma applyChild_loop_shape:
  assumes "\<forall>nm\<in>set names. registered ms nm"
  shows "\<exists>n new. snd (snd (applyChild_loop h config names ms t)) = t @ new \<and>
           n \<le> length names \<and>
           filter is_hook new = map (Hook H_applyChild) (take n names) \<and>
           (fst (applyChild_loop h config names ms t) \<longrightarrow> n = length names) \<and>
           (\<forall>c\<in>set new. is_hook c \<or> module_call c)"
  using assms
proof (induction names arbitrary: ms t)
  case Nil
  show ?case by simp
next
  case (Cons nm names)
  from Cons.prems obtain md where md: "getModule ms nm = Some md"
    by (auto simp: registered_def)
  let ?r = "applyChild h config md (t @ [Hook H_applyChild nm])"
  obtain body where body: "snd (snd ?r) = (t @ [Hook H_applyChild nm]) @ body"
      "\<forall>c\<in>set body. module_call c"
    using applyChild_calls[of "t @ [Hook H_applyChild nm]" h config md]
    by (auto simp: extends_with_def)
  have nh: "filter is_hook body = []"
    using body(2) module_call_not_hook by (auto simp: filter_empty_conv)
  show ?case
  proof (cases "fst ?r")
    case False
    have "snd (snd (applyChild_loop h config (nm # names) ms t)) = t @ (Hook H_applyChild nm # body)"
      using md False body(1) by (simp add: case_prod_beta)
    moreover have "\<not> fst (applyChild_loop h config (nm # names) ms t)"
      using md False by (simp add: case_prod_beta)
    ultimately show ?thesis
      using nh body(2)
      by (intro exI[of _ "Suc 0"] exI[of _ "Hook H_applyChild nm # body"]) auto
  next
    case True
    let ?ms1 = "map_put nm (fst (snd ?r)) ms"
    have reg: "\<forall>x\<in>set names. registered ?ms1 x"
      using Cons.prems by (auto intro: registered_map_put)
    from Cons.IH[OF reg, of "snd (snd ?r)"]
    obtain n new where rest:
      "snd (snd (applyChild_loop h config names ?ms1 (snd (snd ?r)))) = snd (snd ?r) @ new"
      "n \<le> length names"
      "filter is_hook new = map (Hook H_applyChild) (take n names)"
      "fst (applyChild_loop h config names ?ms1 (snd (snd ?r))) \<longrightarrow> n = length names"
      "\<forall>c\<in>set new. is_hook c \<or> module_call c"
      by blast
    have step: "applyChild_loop h config (nm # names) ms t =
                applyChild_loop h config names ?ms1 (snd (snd ?r))"
      using md True by (simp add: case_prod_beta)
    show ?thesis
      unfolding step using rest nh body
      by (intro exI[of _ "Suc n"] exI[of _ "Hook H_applyChild nm # body @ new"]) auto
  qed
qed

lemma dfs_registered:
  "(\<forall>x\<in>set (snd st). registered ms x) \<longrightarrow> (\<forall>x\<in>set (snd (dfs ms temp nm st)). registered ms x)"
  "(\<forall>x\<in>set (snd st). registered ms x) \<longrightarrow> (\<forall>x\<in>set (snd (dfs_deps ms temp deps st)). registered ms x)"
proof (induction ms temp nm st and ms temp deps st rule: dfs_dfs_deps.induct)
  case (1 ms temp nm st)
  show ?case
    using 1 by (subst dfs.simps) (auto simp: registered_def Let_def split: option.splits)
next
  case (2 ms temp st)
  show ?case by simp
next
  case (3 ms temp dep deps st)
  then show ?case by simp
qed

lemma resolve_loop_registered:
  "\<forall>x\<in>set (snd st). registered ms x \<Longrightarrow> \<forall>x\<in>set (snd (resolve_loop ms nms st)). registered ms x"
proof (induction nms arbitrary: st)
  case Nil
  then show ?case by simp
next
  case (Cons nm nms)
  then show ?case using dfs_registered(1)[of st ms "[]" nm] by auto
qed

lemma resolve_registered:
  "\<forall>x\<in>set (executionOrder (resolveDependencies m)). registered (modules m) x"
  using resolve_loop_registered[of "([], [])" "modules m" "map fst (modules m)"]
  by (simp add: resolveDependencies_def)

lemma initializeModules_registered:
  "registered ms x \<Longrightarrow> registered (fst (snd (initializeModules h config names ms t))) x"
proof (induction names arbitrary: ms t)
  case Nil
  then show ?case by simp
next
  case (Cons nm names)
  show ?case
  proof (cases "getModule ms nm")
    case None
    then show ?thesis using Cons by simp
  next
    case (Some md)
    then show ?thesis using Cons
      by (auto simp: case_prod_beta Let_def intro: registered_map_put)
  qed
qed



section \<open>The shape of the child's trace\<close>

lemma resolve_setState [simp]:
  "executionOrder (resolveDependencies (setState st m)) = executionOrder (resolveDependencies m)"
  "mgr_config (resolveDependencies (setState st m)) = mgr_config m"
  "modules (resolveDependencies (setState st m)) = modules m"
  by (simp_all add: resolveDependencies_def setState_def)

lemma run_child:
  assumes "child (run h m) = Some c"
  shows "c = child_main h
               ((resolveDependencies (setState INITIALIZING m))
                  \<lparr>modules := fst (snd (initializeModules h (mgr_config m)
                                          (executionOrder (resolveDependencies m)) (modules m) [])),
                   pipeFd := pipe_fds h, mgr_childPid := 0\<rparr>)"
  using assms
  by (simp add: run_def Let_def case_prod_beta split: if_splits)

lemma child_trace_shape:
  assumes "child (run h m) = Some (e, t)"
  shows "\<exists>n body. t = [Close (fst (pipe_fds h)),
                        Prctl PR_SET_NAME (ArgName (name (sandbox (mgr_config m))))] @ body @
                       (if e = Some 1 then [] else [Execute (command (sandbox (mgr_config m)))]) \<and>
           n \<le> length (executionOrder (resolveDependencies m)) \<and>
           filter is_hook body = map (Hook H_applyChild) (take n (executionOrder (resolveDependencies m))) \<and>
           (e \<noteq> Some 1 \<longrightarrow> n = length (executionOrder (resolveDependencies m))) \<and>
           (\<forall>c\<in>set body. is_hook c \<or> module_call c)"
proof -
  let ?order = "executionOrder (resolveDependencies m)"
  let ?ms2 = "fst (snd (initializeModules h (mgr_config m) ?order (modules m) []))"
  let ?t0 = "[Close (fst (pipe_fds h)), Prctl PR_SET_NAME (ArgName (name (sandbox (mgr_config m))))]"
  have reg: "\<forall>nm\<in>set ?order. registered ?ms2 nm"
    using resolve_registered[of m] initializeModules_registered by blast
  from applyChild_loop_shape[OF reg, of h "mgr_config m" ?t0]
  obtain n new where sh:
    "snd (snd (applyChild_loop h (mgr_config m) ?order ?ms2 ?t0)) = ?t0 @ new"
    "n \<le> length ?order"
    "filter is_hook new = map (Hook H_applyChild) (take n ?order)"
    "fst (applyChild_loop h (mgr_config m) ?order ?ms2 ?t0) \<longrightarrow> n = length ?order"
    "\<forall>c\<in>set new. is_hook c \<or> module_call c"
    by blast
  have c: "(e, t) = executeChild h
               ((resolveDependencies (setState INITIALIZING m))
                  \<lparr>modules := ?ms2, pipeFd := pipe_fds h, mgr_childPid := 0\<rparr>) ?t0"
    using run_child[OF assms] by (simp add: child_main_def sys_def Let_def)
  show ?thesis
  proof (cases "fst (applyChild_loop h (mgr_config m) ?order ?ms2 ?t0)")
    case False
    then have "e = Some 1" "t = ?t0 @ new"
      using c sh(1) by (simp_all add: executeChild_def case_prod_beta Let_def)
    then show ?thesis using sh by (intro exI[of _ n] exI[of _ new]) simp
  next
    case True
    then have "e \<noteq> Some 1" "t = ?t0 @ new @ [Execute (command (sandbox (mgr_config m)))]"
      using c sh(1)
      by (auto simp: executeChild_def execute_def sys_def case_prod_beta Let_def split: if_splits)
    then show ?thesis using sh True by (intro exI[of _ n] exI[of _ new]) simp
  qed
qed

lemma default_modules:
  "modules (registerDefaultModules (SandboxManager_new c)) =
     [(''ai-agent'', AIAgent_new), (''caps'', Caps_new), (''cgroups'', Cgroups_new),
      (''mounts'', Mounts_new), (''namespaces'', Namespaces_new), (''rootfs'', RootFS_new),
      (''seccomp'', Seccomp Seccomp_new)]"
  by (simp add: registerDefaultModules_def registerModule_def SandboxManager_new_def
                Namespaces_new_def Cgroups_new_def Caps_new_def RootFS_new_def Mounts_new_def
                AIAgent_new_def)

lemma default_order:
  assumes "modules m = modules (registerDefaultModules (SandboxManager_new c))"
  shows "executionOrder (resolveDependencies m) =
     [''ai-agent'', ''caps'', ''cgroups'', ''rootfs'', ''mounts'', ''namespaces'', ''seccomp'']"
  unfolding resolveDependencies_def assms default_modules
  by (simp add: dfs.simps getModule_def map_find_def Namespaces_new_def Cgroups_new_def
                Caps_new_def RootFS_new_def Mounts_new_def AIAgent_new_def)


section \<open>RootFS is resolved before Mounts\<close>

lemma precedes_append_left: "precedes a b xs \<Longrightarrow> precedes a b (xs @ ys)"
  by (auto simp: precedes_def takeWhile_append dest: set_takeWhileD)

lemma precedes_snoc: "a \<in> set xs \<Longrightarrow> b \<notin> set xs \<Longrightarrow> precedes a b (xs @ [b])"
  by (auto simp: precedes_def takeWhile_append)

lemma dfs_rootfs_mounts:
  assumes r: "getModule ms ''rootfs'' = Some (RootFS g)"
      and m: "getModule ms ''mounts'' = Some (Mounts f)"
  shows "''rootfs'' \<notin> set temp \<longrightarrow> rm_inv st \<longrightarrow>
           rm_inv (dfs ms temp nm st) \<and>
           (\<exists>ext. snd (dfs ms temp nm st) = snd st @ ext \<and> set ext \<inter> set temp = {}) \<and>
           (nm \<notin> set temp \<and> registered ms nm \<longrightarrow> nm \<in> set (snd (dfs ms temp nm st)))"
    and "''rootfs'' \<notin> set temp \<longrightarrow> rm_inv st \<longrightarrow>
           rm_inv (dfs_deps ms temp deps st) \<and>
           (\<exists>ext. snd (dfs_deps ms temp deps st) = snd st @ ext \<and> set ext \<inter> set temp = {}) \<and>
           (\<forall>d\<in>set deps. d \<notin> set temp \<and> registered ms d \<longrightarrow> d \<in> set (snd (dfs_deps ms temp deps st)))"
  using r m
proof (induction ms temp nm st and ms temp deps st rule: dfs_dfs_deps.induct)
  case (1 ms temp nm st)
  show ?case
  proof (intro impI)
    assume rt: "''rootfs'' \<notin> set temp" and inv: "rm_inv st"
    show "rm_inv (dfs ms temp nm st) \<and>
           (\<exists>ext. snd (dfs ms temp nm st) = snd st @ ext \<and> set ext \<inter> set temp = {}) \<and>
           (nm \<notin> set temp \<and> registered ms nm \<longrightarrow> nm \<in> set (snd (dfs ms temp nm st)))"
    proof (cases "nm \<in> set temp \<or> nm \<in> set (fst st) \<or> getModule ms nm = None")
      case True
      then have "dfs ms temp nm st = st"
        by (subst dfs.simps) (auto split: option.splits)
      moreover have "nm \<in> set (fst st) \<Longrightarrow> nm \<in> set (snd st)"
        using inv by (simp add: rm_inv_def)
      ultimately show ?thesis using inv True by (auto simp: registered_def)
    next
      case False
      then obtain md where md: "getModule ms nm = Some md" by auto
      from False have nt: "nm \<notin> set temp" and nv: "nm \<notin> set (fst st)" by auto
      let ?st1 = "dfs_deps ms (nm # temp) (getDependencies md) st"
      have res: "dfs ms temp nm st = (nm # fst ?st1, snd ?st1 @ [nm])"
        using md nt nv by (subst dfs.simps) (simp add: Let_def)
      show ?thesis
      proof (cases "nm = ''rootfs''")
        case True
        then have "md = RootFS g" using md "1.prems"(1) by simp
        then have "getDependencies md = []" by simp
        then have st1: "?st1 = st" by simp
        have "rm_inv (nm # fst st, snd st @ [nm])"
          using inv nv True by (auto simp: rm_inv_def intro: precedes_append_left)
        then show ?thesis using res st1 nt by auto
      next
        case nr: False
        have rt': "''rootfs'' \<notin> set (nm # temp)" using rt nr by simp
        from "1.IH"[OF nt nv md "1.prems"] rt' inv
        have ih: "rm_inv ?st1"
          "\<exists>ext. snd ?st1 = snd st @ ext \<and> set ext \<inter> set (nm # temp) = {}"
          "\<forall>d\<in>set (getDependencies md). d \<notin> set (nm # temp) \<and> registered ms d \<longrightarrow> d \<in> set (snd ?st1)"
          by auto
        from ih(2) obtain ext where ext: "snd ?st1 = snd st @ ext" "set ext \<inter> set (nm # temp) = {}"
          by blast
        have nn: "nm \<notin> set (snd ?st1)"
          using ext nv inv by (auto simp: rm_inv_def)
        have inv': "rm_inv (nm # fst ?st1, snd ?st1 @ [nm])"
        proof (cases "nm = ''mounts''")
          case True
          then have "md = Mounts f" using md "1.prems"(2) by simp
          then have "getDependencies md = [''rootfs'']" by simp
          moreover have "registered ms ''rootfs''" using "1.prems"(1) by (simp add: registered_def)
          ultimately have "''rootfs'' \<in> set (snd ?st1)" using ih(3) rt' by auto
          then have "precedes ''rootfs'' ''mounts'' (snd ?st1 @ [nm])"
            using nn True by (auto intro: precedes_snoc)
          then show ?thesis using ih(1) by (auto simp: rm_inv_def)
        next
          case False
          then show ?thesis using ih(1) by (auto simp: rm_inv_def intro: precedes_append_left)
        qed
        have "\<exists>e. snd ?st1 @ [nm] = snd st @ e \<and> set e \<inter> set temp = {}"
          using ext nt by (intro exI[of _ "ext @ [nm]"]) auto
        then show ?thesis using res inv' by auto
      qed
    qed
  qed
next
  case (2 ms temp st)
  show ?case by simp
next
  case (3 ms temp dep deps st)
  show ?case
  proof (intro impI)
    assume rt: "''rootfs'' \<notin> set temp" and inv: "rm_inv st"
    let ?st1 = "dfs ms temp dep st"
    from "3.IH"(1)[OF "3.prems"] rt inv
    have a: "rm_inv ?st1" "\<exists>ext. snd ?st1 = snd st @ ext \<and> set ext \<inter> set temp = {}"
      "dep \<notin> set temp \<and> registered ms dep \<longrightarrow> dep \<in> set (snd ?st1)"
      by auto
    from "3.IH"(2)[OF "3.prems"] rt a(1)
    have b: "rm_inv (dfs_deps ms temp deps ?st1)"
      "\<exists>ext. snd (dfs_deps ms temp deps ?st1) = snd ?st1 @ ext \<and> set ext \<inter> set temp = {}"
      "\<forall>d\<in>set deps. d \<notin> set temp \<and> registered ms d \<longrightarrow> d \<in> set (snd (dfs_deps ms temp deps ?st1))"
      by auto
    from a(2) obtain e1 where e1: "snd ?st1 = snd st @ e1" "set e1 \<inter> set temp = {}" by blast
    from b(2) obtain e2 where e2: "snd (dfs_deps ms temp deps ?st1) = snd ?st1 @ e2"
        "set e2 \<inter> set temp = {}" by blast
    have c: "\<exists>ext. snd (dfs_deps ms temp deps ?st1) = snd st @ ext \<and> set ext \<inter> set temp = {}"
      using e1 e2 by (intro exI[of _ "e1 @ e2"]) auto
    have d: "dep \<notin> set temp \<and> registered ms dep \<longrightarrow> dep \<in> set (snd (dfs_deps ms temp deps ?st1))"
      using e2(1) a(3) by auto
    show "rm_inv (dfs_deps ms temp (dep # deps) st) \<and>
          (\<exists>ext. snd (dfs_deps ms temp (dep # deps) st) = snd st @ ext \<and> set ext \<inter> set temp = {}) \<and>
          (\<forall>d\<in>set (dep # deps). d \<notin> set temp \<and> registered ms d \<longrightarrow>
              d \<in> set (snd (dfs_deps ms temp (dep # deps) st)))"
      using b(1) b(3) c d by simp
  qed
qed


lemma resolve_loop_rootfs_mounts:
  assumes r: "getModule ms ''rootfs'' = Some (RootFS g)"
      and m: "getModule ms ''mounts'' = Some (Mounts f)"
      and inv: "rm_inv st"
  shows "rm_inv (resolve_loop ms nms st) \<and>
         (\<forall>x\<in>set nms. registered ms x \<longrightarrow> x \<in> set (snd (resolve_loop ms nms st))) \<and>
         set (snd st) \<subseteq> set (snd (resolve_loop ms nms st))"
  using inv
proof (induction nms arbitrary: st)
  case Nil
  then show ?case by simp
next
  case (Cons nm nms)
  let ?st1 = "if nm \<notin> set (fst st) then dfs ms [] nm st else st"
  have d: "rm_inv (dfs ms [] nm st) \<and>
           (\<exists>ext. snd (dfs ms [] nm st) = snd st @ ext \<and> set ext \<inter> set [] = {}) \<and>
           (nm \<notin> set [] \<and> registered ms nm \<longrightarrow> nm \<in> set (snd (dfs ms [] nm st)))"
    using dfs_rootfs_mounts(1)[OF r m, of "[]" st nm] Cons.prems by simp
  have i1: "rm_inv ?st1" using d Cons.prems by simp
  have sub: "set (snd st) \<subseteq> set (snd ?st1)" using d by auto
  have nm1: "registered ms nm \<longrightarrow> nm \<in> set (snd ?st1)"
    using d Cons.prems by (auto simp: rm_inv_def)
  from Cons.IH[OF i1]
  have ih: "rm_inv (resolve_loop ms nms ?st1)"
    "\<forall>x\<in>set nms. registered ms x \<longrightarrow> x \<in> set (snd (resolve_loop ms nms ?st1))"
    "set (snd ?st1) \<subseteq> set (snd (resolve_loop ms nms ?st1))"
    by auto
  have step: "resolve_loop ms (nm # nms) st = resolve_loop ms nms ?st1" by simp
  show ?case unfolding step using ih sub nm1 by auto
qed

lemma registered_keys: "registered ms nm \<Longrightarrow> nm \<in> set (map fst ms)"
  by (auto simp: registered_def getModule_def map_find_def dest!: map_of_SomeD intro: rev_image_eqI)

lemma rootfs_before_mounts:
  assumes r: "getModule (modules m) ''rootfs'' = Some (RootFS g)"
      and mt: "getModule (modules m) ''mounts'' = Some (Mounts f)"
  shows "precedes ''rootfs'' ''mounts'' (executionOrder (resolveDependencies m))"
proof -
  have inv0: "rm_inv ([], [])" by (simp add: rm_inv_def)
  from resolve_loop_rootfs_mounts[OF r mt inv0, of "map fst (modules m)"]
  have a: "rm_inv (resolve_loop (modules m) (map fst (modules m)) ([], []))"
    "\<forall>x\<in>set (map fst (modules m)). registered (modules m) x \<longrightarrow>
        x \<in> set (snd (resolve_loop (modules m) (map fst (modules m)) ([], [])))"
    by auto
  have "registered (modules m) ''mounts''" using mt by (simp add: registered_def)
  then have "''mounts'' \<in> set (snd (resolve_loop (modules m) (map fst (modules m)) ([], [])))"
    using a(2) registered_keys by blast
  then show ?thesis using a(1) by (simp add: rm_inv_def resolveDependencies_def)
qed


lemma precedes_filter:
  "P b \<Longrightarrow> precedes a b (filter P xs) \<Longrightarrow> precedes a b xs"
  unfolding precedes_def
  by (induction xs) (auto split: if_splits)

lemma precedes_map:
  "inj f \<Longrightarrow> precedes a b xs \<Longrightarrow> precedes (f a) (f b) (map f xs)"
  unfolding precedes_def
  by (induction xs) (auto split: if_splits dest: injD)

lemma precedes_take:
  "precedes a b xs \<Longrightarrow> b \<in> set (take n xs) \<Longrightarrow> precedes a b (take n xs)"
  unfolding precedes_def
proof (induction xs arbitrary: n)
  case Nil
  then show ?case by simp
next
  case (Cons x xs)
  show ?case
  proof (cases n)
    case 0
    then show ?thesis using Cons.prems by simp
  next
    case (Suc k)
    then show ?thesis using Cons by (auto split: if_splits)
  qed
qed

lemma hook_order_on_trace:
  assumes f: "filter is_hook t = map (Hook H_applyChild) (take n order)"
      and p: "precedes a b order"
      and b: "Hook H_applyChild b \<in> set t"
  shows "precedes (Hook H_applyChild a) (Hook H_applyChild b) t"
proof -
  have "Hook H_applyChild b \<in> set (filter is_hook t)" using b by simp
  then have "b \<in> set (take n order)" unfolding f by auto
  then have "precedes a b (take n order)" using p by (rule precedes_take[rotated])
  moreover have "inj (Hook H_applyChild)" by (simp add: inj_def)
  ultimately have "precedes (Hook H_applyChild a) (Hook H_applyChild b)
                     (map (Hook H_applyChild) (take n order))"
    by (rule precedes_map[rotated])
  then have "precedes (Hook H_applyChild a) (Hook H_applyChild b) (filter is_hook t)"
    unfolding f .
  then show ?thesis by (rule precedes_filter[rotated]) simp
qed

section \<open>The execution order lists the registry\<close>

lemma dfs_complete:
  shows "order_inv st \<longrightarrow>
           order_inv (dfs ms temp nm st) \<and>
           (\<exists>ext. snd (dfs ms temp nm st) = snd st @ ext \<and> set ext \<inter> set temp = {}) \<and>
           (nm \<notin> set temp \<and> registered ms nm \<longrightarrow> nm \<in> set (snd (dfs ms temp nm st)))"
    and "order_inv st \<longrightarrow>
           order_inv (dfs_deps ms temp deps st) \<and>
           (\<exists>ext. snd (dfs_deps ms temp deps st) = snd st @ ext \<and> set ext \<inter> set temp = {})"
proof (induction ms temp nm st and ms temp deps st rule: dfs_dfs_deps.induct)
  case (1 ms temp nm st)
  show ?case
  proof (intro impI)
    assume inv: "order_inv st"
    show "order_inv (dfs ms temp nm st) \<and>
           (\<exists>ext. snd (dfs ms temp nm st) = snd st @ ext \<and> set ext \<inter> set temp = {}) \<and>
           (nm \<notin> set temp \<and> registered ms nm \<longrightarrow> nm \<in> set (snd (dfs ms temp nm st)))"
    proof (cases "nm \<in> set temp \<or> nm \<in> set (fst st) \<or> getModule ms nm = None")
      case True
      then have "dfs ms temp nm st = st"
        by (subst dfs.simps) (auto split: option.splits)
      moreover have "nm \<in> set (fst st) \<Longrightarrow> nm \<in> set (snd st)"
        using inv by (simp add: order_inv_def)
      ultimately show ?thesis using inv True by (auto simp: registered_def)
    next
      case False
      then obtain md where md: "getModule ms nm = Some md" by auto
      from False have nt: "nm \<notin> set temp" and nv: "nm \<notin> set (fst st)" by auto
      let ?st1 = "dfs_deps ms (nm # temp) (getDependencies md) st"
      have res: "dfs ms temp nm st = (nm # fst ?st1, snd ?st1 @ [nm])"
        using md nt nv by (subst dfs.simps) (simp add: Let_def)
      from "1.IH"[OF nt nv md] inv
      have ih: "order_inv ?st1"
        "\<exists>ext. snd ?st1 = snd st @ ext \<and> set ext \<inter> set (nm # temp) = {}"
        by auto
      from ih(2) obtain ext where ext: "snd ?st1 = snd st @ ext" "set ext \<inter> set (nm # temp) = {}"
        by blast
      have nn: "nm \<notin> set (snd ?st1)"
        using ext nv inv by (auto simp: order_inv_def)
      have inv': "order_inv (nm # fst ?st1, snd ?st1 @ [nm])"
        using ih(1) nn by (auto simp: order_inv_def)
      have "\<exists>e. snd ?st1 @ [nm] = snd st @ e \<and> set e \<inter> set temp = {}"
        using ext nt by (intro exI[of _ "ext @ [nm]"]) auto
      then show ?thesis using res inv' by auto
    qed
  qed
next
  case (2 ms temp st)
  show ?case by simp
next
  case (3 ms temp dep deps st)
  show ?case
  proof (intro impI)
    assume inv: "order_inv st"
    let ?st1 = "dfs ms temp dep st"
    from "3.IH"(1) inv
    have a: "order_inv ?st1" "\<exists>ext. snd ?st1 = snd st @ ext \<and> set ext \<inter> set temp = {}"
      by auto
    from "3.IH"(2) a(1)
    have b: "order_inv (dfs_deps ms temp deps ?st1)"
      "\<exists>ext. snd (dfs_deps ms temp deps ?st1) = snd ?st1 @ ext \<and> set ext \<inter> set temp = {}"
      by auto
    from a(2) obtain e1 where e1: "snd ?st1 = snd st @ e1" "set e1 \<inter> set temp = {}" by blast
    from b(2) obtain e2 where e2: "snd (dfs_deps ms temp deps ?st1) = snd ?st1 @ e2"
        "set e2 \<inter> set temp = {}" by blast
    have c: "\<exists>ext. snd (dfs_deps ms temp deps ?st1) = snd st @ ext \<and> set ext \<inter> set temp = {}"
      using e1 e2 by (intro exI[of _ "e1 @ e2"]) auto
    show "order_inv (dfs_deps ms temp (dep # deps) st) \<and>
          (\<exists>ext. snd (dfs_deps ms temp (dep # deps) st) = snd st @ ext \<and> set ext \<inter> set temp = {})"
      using b(1) c by simp
  qed
qed

lemma resolve_loop_complete:
  assumes inv: "order_inv st"
  shows "order_inv (resolve_loop ms nms st) \<and>
         (\<forall>x\<in>set nms. registered ms x \<longrightarrow> x \<in> set (snd (resolve_loop ms nms st))) \<and>
         set (snd st) \<subseteq> set (snd (resolve_loop ms nms st))"
  using inv
proof (induction nms arbitrary: st)
  case Nil
  then show ?case by simp
next
  case (Cons nm nms)
  let ?st1 = "if nm \<notin> set (fst st) then dfs ms [] nm st else st"
  have d: "order_inv (dfs ms [] nm st) \<and>
           (\<exists>ext. snd (dfs ms [] nm st) = snd st @ ext \<and> set ext \<inter> set [] = {}) \<and>
           (nm \<notin> set [] \<and> registered ms nm \<longrightarrow> nm \<in> set (snd (dfs ms [] nm st)))"
    using dfs_complete(1)[of st ms "[]" nm] Cons.prems by simp
  have i1: "order_inv ?st1" using d Cons.prems by simp
  have sub: "set (snd st) \<subseteq> set (snd ?st1)" using d by auto
  have nm1: "registered ms nm \<longrightarrow> nm \<in> set (snd ?st1)"
    using d Cons.prems by (auto simp: order_inv_def)
  from Cons.IH[OF i1]
  have ih: "order_inv (resolve_loop ms nms ?st1)"
    "\<forall>x\<in>set nms. registered ms x \<longrightarrow> x \<in> set (snd (resolve_loop ms nms ?st1))"
    "set (snd ?st1) \<subseteq> set (snd (resolve_loop ms nms ?st1))"
    by auto
  have step: "resolve_loop ms (nm # nms) st = resolve_loop ms nms ?st1" by simp
  show ?case unfolding step using ih sub nm1 by auto
qed

lemma keys_registered: "nm \<in> fst ` set ms \<Longrightarrow> registered ms nm"
  by (auto simp: registered_def getModule_def map_find_def map_of_eq_None_iff)

lemma resolve_order_complete:
  "set (executionOrder (resolveDependencies m)) = fst ` set (modules m) \<and>
   distinct (executionOrder (resolveDependencies m))"
proof -
  have inv0: "order_inv ([], [])" by (simp add: order_inv_def)
  from resolve_loop_complete[OF inv0, of "modules m" "map fst (modules m)"]
  have a: "order_inv (resolve_loop (modules m) (map fst (modules m)) ([], []))"
    "\<forall>x\<in>set (map fst (modules m)). registered (modules m) x \<longrightarrow>
        x \<in> set (snd (resolve_loop (modules m) (map fst (modules m)) ([], [])))"
    by auto
  have sub1: "fst ` set (modules m) \<subseteq> set (executionOrder (resolveDependencies m))"
    using a(2) keys_registered by (fastforce simp: resolveDependencies_def)
  have sub2: "set (executionOrder (resolveDependencies m)) \<subseteq> fst ` set (modules m)"
    using resolve_registered[of m] registered_keys by fastforce
  show ?thesis using sub1 sub2 a(1) by (auto simp: order_inv_def resolveDependencies_def)
qed

section \<open>The order of the child-side hooks\<close>

text \<open>
  Claim C1 as stated fails. With the modules that main.cpp registers, the default
  configuration and a host on which every call succeeds, the child enters the
  \<open>applyChild\<close> hooks in the order ai-agent, caps, cgroups, rootfs, mounts, namespaces,
  seccomp: Caps runs before Seccomp and before all filesystem setup, and Namespaces
  runs after RootFS and Mounts.
\<close>

theorem apply_order_counterexample:
  "map_option (\<lambda>c. filter is_hook (snd c)) (child (run host_ok default_manager)) =
     Some [Hook H_applyChild ''ai-agent'', Hook H_applyChild ''caps'',
           Hook H_applyChild ''cgroups'', Hook H_applyChild ''rootfs'',
           Hook H_applyChild ''mounts'', Hook H_applyChild ''namespaces'',
           Hook H_applyChild ''seccomp'']"
  by (simp add: default_manager_def engine_defs registerDefaultModules_def module_new_defs
                namespaces_defs cgroups_defs seccomp_defs rootfs_defs caps_defs mounts_defs
                parent_defs to_string_defs host_ok_def createDefaultConfig_def)

text \<open>
  Claim C1, amended. The engine's execution order, as \<open>resolveDependencies\<close> computes
  it, lists every registered module exactly once. For every run, the child enters the
  \<open>applyChild\<close> hooks in that order and in no other: the hooks entered are an initial
  segment of it, and the final \<open>execve\<close> of the command, when it happens, is the child's
  last call and comes after the hook of every registered module. In every engine that
  holds the built-in RootFS and Mounts modules the hook of RootFS is entered before that
  of Mounts, which declares it as a dependency. With the modules that main.cpp registers
  the order is ai-agent, caps, cgroups, rootfs, mounts, namespaces, seccomp.
\<close>

theorem apply_order:
  assumes "child (run h m) = Some (e, t)"
  shows "(\<exists>n. filter is_hook t =
               map (Hook H_applyChild) (take n (executionOrder (resolveDependencies m))) \<and>
              (\<forall>argv. Execute argv \<in> set t \<longrightarrow>
                 n = length (executionOrder (resolveDependencies m)) \<and> last t = Execute argv)) \<and>
         set (executionOrder (resolveDependencies m)) = fst ` set (modules m) \<and>
         distinct (executionOrder (resolveDependencies m)) \<and>
         (\<forall>argv nm. Execute argv \<in> set t \<and> nm \<in> fst ` set (modules m) \<longrightarrow>
            precedes (Hook H_applyChild nm) (Execute argv) t) \<and>
         (getModule (modules m) ''rootfs'' = Some (RootFS g) \<and>
          getModule (modules m) ''mounts'' = Some (Mounts f) \<and>
          Hook H_applyChild ''mounts'' \<in> set t \<longrightarrow>
            precedes (Hook H_applyChild ''rootfs'') (Hook H_applyChild ''mounts'') t) \<and>
         (modules m = modules (registerDefaultModules (SandboxManager_new c)) \<longrightarrow>
            executionOrder (resolveDependencies m) =
              [''ai-agent'', ''caps'', ''cgroups'', ''rootfs'', ''mounts'', ''namespaces'', ''seccomp''])"
proof -
  let ?order = "executionOrder (resolveDependencies m)"
  let ?pre = "[Close (fst (pipe_fds h)),
               Prctl PR_SET_NAME (ArgName (name (sandbox (mgr_config m))))]"
  from child_trace_shape[OF assms] obtain n body where sh:
    "t = ?pre @ body @
         (if e = Some 1 then [] else [Execute (command (sandbox (mgr_config m)))])"
    "filter is_hook body = map (Hook H_applyChild) (take n ?order)"
    "e \<noteq> Some 1 \<longrightarrow> n = length ?order"
    "\<forall>c\<in>set body. is_hook c \<or> module_call c"
    by blast
  have nb: "Execute argv \<notin> set body" for argv
  proof
    assume "Execute argv \<in> set body"
    then have "is_hook (Execute argv) \<or> module_call (Execute argv)" using sh(4) by blast
    then show False by simp
  qed
  have hooks: "filter is_hook t = map (Hook H_applyChild) (take n ?order)"
    using sh(1,2) by simp
  have ex: "\<forall>argv. Execute argv \<in> set t \<longrightarrow> n = length ?order \<and> last t = Execute argv"
    using sh(1,3) nb by (auto split: if_splits)
  have listing: "set ?order = fst ` set (modules m)" "distinct ?order"
    using resolve_order_complete[of m] by simp_all
  have all: "precedes (Hook H_applyChild nm) (Execute argv) t"
    if x: "Execute argv \<in> set t" and r: "nm \<in> fst ` set (modules m)" for argv nm
  proof -
    from x have e1: "e \<noteq> Some 1" and av: "argv = command (sandbox (mgr_config m))"
      using sh(1) nb by (auto split: if_splits)
    have n: "n = length ?order" using sh(3) e1 by simp
    have "Hook H_applyChild nm \<in> set (map (Hook H_applyChild) ?order)"
      using r listing(1) by simp
    then have "Hook H_applyChild nm \<in> set (filter is_hook body)"
      unfolding sh(2) n by simp
    then have inb: "Hook H_applyChild nm \<in> set (?pre @ body)" by simp
    have nin: "Execute argv \<notin> set (?pre @ body)" using nb by simp
    have t: "t = (?pre @ body) @ [Execute argv]" using sh(1) e1 av by simp
    show ?thesis unfolding t using inb nin by (rule precedes_snoc)
  qed
  have rm: "precedes (Hook H_applyChild ''rootfs'') (Hook H_applyChild ''mounts'') t"
    if "getModule (modules m) ''rootfs'' = Some (RootFS g)"
      and "getModule (modules m) ''mounts'' = Some (Mounts f)"
      and "Hook H_applyChild ''mounts'' \<in> set t"
    using hook_order_on_trace[OF hooks rootfs_before_mounts[OF that(1,2)] that(3)] .
  have a: "\<exists>n. filter is_hook t = map (Hook H_applyChild) (take n ?order) \<and>
              (\<forall>argv. Execute argv \<in> set t \<longrightarrow> n = length ?order \<and> last t = Execute argv)"
    using hooks ex by blast
  show ?thesis using a listing all rm default_order by blast
qed

theorem apply_order_witness:
  "child (run host_ok default_manager) \<noteq> None \<and>
   modules default_manager = modules (registerDefaultModules (SandboxManager_new createDefaultConfig)) \<and>
   getModule (modules default_manager) ''rootfs'' = Some (RootFS RootFS_fields) \<and>
   getModule (modules default_manager) ''mounts'' =
     Some (Mounts \<lparr> mt_state = UNINITIALIZED, activeMounts = [] \<rparr>) \<and>
   ''namespaces'' \<in> fst ` set (modules default_manager) \<and>
   Execute [''/bin/bash''] \<in> set (snd (the (child (run host_ok default_manager)))) \<and>
   Hook H_applyChild ''mounts'' \<in> set (snd (the (child (run host_ok default_manager)))) \<and>
   filter is_hook (snd (the (child (run host_ok default_manager)))) =
     map (Hook H_applyChild)
       [''ai-agent'', ''caps'', ''cgroups'', ''rootfs'', ''mounts'', ''namespaces'', ''seccomp''] \<and>
   last (snd (the (child (run host_ok default_manager)))) = Execute [''/bin/bash''] \<and>
   set (executionOrder (resolveDependencies default_manager)) = fst ` set (modules default_manager) \<and>
   distinct (executionOrder (resolveDependencies default_manager)) \<and>
   precedes (Hook H_applyChild ''namespaces'') (Execute [''/bin/bash''])
     (snd (the (child (run host_ok default_manager)))) \<and>
   precedes (Hook H_applyChild ''rootfs'') (Hook H_applyChild ''mounts'')
     (snd (the (child (run host_ok default_manager))))"
proof -
  have "\<exists>e t. child (run host_ok default_manager) = Some (e, t) \<and>
          Execute [''/bin/bash''] \<in> set t \<and> Hook H_applyChild ''mounts'' \<in> set t"
    by (simp add: default_manager_def eval_defs)
  then obtain e t where c: "child (run host_ok default_manager) = Some (e, t)"
    and ex: "Execute [''/bin/bash''] \<in> set t"
    and hm: "Hook H_applyChild ''mounts'' \<in> set t"
    by blast
  have d: "modules default_manager =
           modules (registerDefaultModules (SandboxManager_new createDefaultConfig))"
    by (simp add: default_manager_def)
  have r: "getModule (modules default_manager) ''rootfs'' = Some (RootFS RootFS_fields)"
    and m: "getModule (modules default_manager) ''mounts'' =
              Some (Mounts \<lparr> mt_state = UNINITIALIZED, activeMounts = [] \<rparr>)"
    by (simp_all add: default_manager_def default_modules getModule_def map_find_def
                      RootFS_new_def Mounts_new_def)
  have ns: "''namespaces'' \<in> fst ` set (modules default_manager)"
    by (simp add: default_manager_def default_modules)
  from apply_order[OF c, where c = createDefaultConfig and g = RootFS_fields
                     and f = "\<lparr> mt_state = UNINITIALIZED, activeMounts = [] \<rparr>"]
  have th:
    "\<exists>n. filter is_hook t =
            map (Hook H_applyChild) (take n (executionOrder (resolveDependencies default_manager))) \<and>
          (\<forall>argv. Execute argv \<in> set t \<longrightarrow>
             n = length (executionOrder (resolveDependencies default_manager)) \<and>
             last t = Execute argv)"
    "set (executionOrder (resolveDependencies default_manager)) = fst ` set (modules default_manager)"
    "distinct (executionOrder (resolveDependencies default_manager))"
    "precedes (Hook H_applyChild ''namespaces'') (Execute [''/bin/bash'']) t"
    "precedes (Hook H_applyChild ''rootfs'') (Hook H_applyChild ''mounts'') t"
    "executionOrder (resolveDependencies default_manager) =
       [''ai-agent'', ''caps'', ''cgroups'', ''rootfs'', ''mounts'', ''namespaces'', ''seccomp'']"
    using ex hm d r m ns by blast+
  from th(1) ex have
    "filter is_hook t = map (Hook H_applyChild) (executionOrder (resolveDependencies default_manager))"
    "last t = Execute [''/bin/bash'']"
    by auto
  then show ?thesis using th(2-6) c ex hm d r m ns by simp
qed

section \<open>Everything the child calls\<close>

lemma child_calls:
  assumes "child (run h m) = Some (e, t)"
  shows "\<forall>c\<in>set t. c = Close (fst (pipe_fds h)) \<or>
                      c = Prctl PR_SET_NAME (ArgName (name (sandbox (mgr_config m)))) \<or>
                      c = Execute (command (sandbox (mgr_config m))) \<or>
                      is_hook c \<or> module_call c"
proof -
  from child_trace_shape[OF assms] obtain n body where sh:
    "t = [Close (fst (pipe_fds h)),
          Prctl PR_SET_NAME (ArgName (name (sandbox (mgr_config m))))] @ body @
         (if e = Some 1 then [] else [Execute (command (sandbox (mgr_config m)))])"
    "\<forall>c\<in>set body. is_hook c \<or> module_call c"
    by blast
  show ?thesis unfolding sh(1) using sh(2) by (auto split: if_splits)
qed

section \<open>Installing the seccomp filter\<close>

text \<open>
  Claim C3 as stated fails. With only the Seccomp module registered, the default
  configuration (policy "default", so seccomp is enabled) and a host on which every call
  succeeds, the child's calls up to the command are exactly the five listed: the filter
  is installed by \<open>prctl(PR_SET_SECCOMP, SECCOMP_MODE_FILTER, ...)\<close> and no
  \<open>prctl(PR_SET_NO_NEW_PRIVS, 1)\<close> comes before it.
\<close>

theorem seccomp_counterexample:
  "child (run host_ok manager_seccomp) =
     Some (None,
           [Close 3,
            Prctl PR_SET_NAME (ArgName ''sandbox-default''),
            Hook H_applyChild ''seccomp'',
            Prctl PR_SET_SECCOMP (ArgFilter SECCOMP_MODE_FILTER (Bpf ACTION_ERRNO essentialCalls)),
            Execute [''/bin/bash'']])"
  by (simp add: manager_seccomp_def eval_defs)

text \<open>
  Claim C3, amended. For every run that reaches child execution, the child never calls
  \<open>prctl(PR_SET_NO_NEW_PRIVS, ...)\<close>. The \<open>applyChild\<close> hook of the Seccomp module
  makes no call and succeeds when seccomp is disabled. When seccomp is enabled it makes
  exactly the following calls, in this order, gives up at the first that fails and
  succeeds when all have succeeded: with a filter already compiled, the single call
  \<open>prctl(PR_SET_SECCOMP, SECCOMP_MODE_FILTER, filter)\<close> for that filter; with no filter
  compiled yet, the compilation (\<open>seccomp_init\<close> with the default action, the size query
  and the export of \<open>seccomp_export_bpf\<close>) and then
  \<open>prctl(PR_SET_SECCOMP, SECCOMP_MODE_FILTER, filter)\<close> for the filter compiled from
  the default action and the allow rules of the essential calls that libseccomp accepts.
\<close>

theorem seccomp_without_no_new_privs:
  "(child (run h m) = Some (e, t) \<longrightarrow> (\<forall>a. Prctl PR_SET_NO_NEW_PRIVS a \<notin> set t)) \<and>
   (\<not> sc_enabled f \<longrightarrow> Seccomp_applyChild h f t0 = (True, f, t0)) \<and>
   (sc_enabled f \<longrightarrow>
      (fst (Seccomp_applyChild h f t0), snd (snd (Seccomp_applyChild h f t0))) =
        attempt (kernel h)
          (if filterBlob f = EmptyBlob
           then [SeccompInit (defaultAction f), SeccompExportBpf False, SeccompExportBpf True,
                 Prctl PR_SET_SECCOMP (ArgFilter SECCOMP_MODE_FILTER
                    (Bpf (defaultAction f) (filter (seccomp_allows h) essentialCalls)))]
           else [Prctl PR_SET_SECCOMP (ArgFilter SECCOMP_MODE_FILTER (filterBlob f))])
          t0)"
proof (intro conjI impI allI)
  fix a
  assume c: "child (run h m) = Some (e, t)"
  show "Prctl PR_SET_NO_NEW_PRIVS a \<notin> set t"
  proof
    assume "Prctl PR_SET_NO_NEW_PRIVS a \<in> set t"
    with child_calls[OF c] show False
      by (auto simp: PR_SET_NO_NEW_PRIVS_def PR_SET_NAME_def PR_SET_SECCOMP_def)
  qed
next
  assume "\<not> sc_enabled f"
  then show "Seccomp_applyChild h f t0 = (True, f, t0)"
    by (simp add: Seccomp_applyChild_def)
next
  assume "sc_enabled f"
  then show "(fst (Seccomp_applyChild h f t0), snd (snd (Seccomp_applyChild h f t0))) =
        attempt (kernel h)
          (if filterBlob f = EmptyBlob
           then [SeccompInit (defaultAction f), SeccompExportBpf False, SeccompExportBpf True,
                 Prctl PR_SET_SECCOMP (ArgFilter SECCOMP_MODE_FILTER
                    (Bpf (defaultAction f) (filter (seccomp_allows h) essentialCalls)))]
           else [Prctl PR_SET_SECCOMP (ArgFilter SECCOMP_MODE_FILTER (filterBlob f))])
          t0"
    by (simp add: Seccomp_applyChild_def installFilter_def loadDefaultAllowlist_def
                  generateDefaultPolicy_def sys_def Let_def)
qed

theorem seccomp_without_no_new_privs_witness:
  "child (run host_ok manager_seccomp) \<noteq> None \<and>
   Prctl PR_SET_NO_NEW_PRIVS (ArgInt 1) \<notin> set (snd (the (child (run host_ok manager_seccomp)))) \<and>
   \<not> sc_enabled (Seccomp_new\<lparr>sc_enabled := False\<rparr>) \<and>
   Seccomp_applyChild host_ok (Seccomp_new\<lparr>sc_enabled := False\<rparr>) [] =
     (True, Seccomp_new\<lparr>sc_enabled := False\<rparr>, []) \<and>
   sc_enabled Seccomp_new \<and> filterBlob Seccomp_new = EmptyBlob \<and>
   (fst (Seccomp_applyChild host_ok Seccomp_new []),
    snd (snd (Seccomp_applyChild host_ok Seccomp_new []))) =
     (True, [SeccompInit ACTION_ERRNO, SeccompExportBpf False, SeccompExportBpf True,
             Prctl PR_SET_SECCOMP (ArgFilter SECCOMP_MODE_FILTER (Bpf ACTION_ERRNO essentialCalls))]) \<and>
   sc_enabled (Seccomp_new\<lparr>filterBlob := Bpf ACTION_KILL []\<rparr>) \<and>
   (fst (Seccomp_applyChild host_ok (Seccomp_new\<lparr>filterBlob := Bpf ACTION_KILL []\<rparr>) []),
    snd (snd (Seccomp_applyChild host_ok (Seccomp_new\<lparr>filterBlob := Bpf ACTION_KILL []\<rparr>) []))) =
     (True, [Prctl PR_SET_SECCOMP (ArgFilter SECCOMP_MODE_FILTER (Bpf ACTION_KILL []))])"
proof -
  have "\<exists>e t. child (run host_ok manager_seccomp) = Some (e, t)"
    by (simp add: manager_seccomp_def eval_defs)
  then obtain e t where c: "child (run host_ok manager_seccomp) = Some (e, t)"
    by blast
  have k: "kernel host_ok = (\<lambda>t c. True)" "seccomp_allows host_ok = (\<lambda>n. True)"
    by (simp_all add: host_ok_def)
  from seccomp_without_no_new_privs[of host_ok manager_seccomp e t
         "Seccomp_new\<lparr>sc_enabled := False\<rparr>" "[]"]
       seccomp_without_no_new_privs[of host_ok manager_seccomp e t Seccomp_new "[]"]
       seccomp_without_no_new_privs[of host_ok manager_seccomp e t
         "Seccomp_new\<lparr>filterBlob := Bpf ACTION_KILL []\<rparr>" "[]"]
       c
  show ?thesis by (simp add: Seccomp_new_def k)
qed

section \<open>The child's standard output\<close>

text \<open>
  Claim C6 fails on the code, in every run: the child closes the read end of the pipe
  as its first call, but it never calls \<open>dup2\<close>, so its standard output and standard
  error stay what it inherited and the command does not write to the engine's pipe.
\<close>

theorem child_never_redirects:
  assumes "child (run h m) = Some (e, t)"
  shows "(\<exists>rest. t = Close (fst (pipe_fds h)) # rest) \<and> (\<forall>a b. Dup2 a b \<notin> set t)"
proof -
  from child_trace_shape[OF assms] have "\<exists>rest. t = Close (fst (pipe_fds h)) # rest" by auto
  moreover have "Dup2 a b \<notin> set t" for a b
  proof
    assume "Dup2 a b \<in> set t"
    with child_calls[OF assms] show False by auto
  qed
  ultimately show ?thesis by blast
qed

theorem child_never_redirects_witness:
  "child (run host_ok manager_ns) \<noteq> None \<and>
   hd (snd (the (child (run host_ok manager_ns)))) = Close 3 \<and>
   Dup2 4 1 \<notin> set (snd (the (child (run host_ok manager_ns)))) \<and>
   Dup2 4 2 \<notin> set (snd (the (child (run host_ok manager_ns))))"
proof -
  have "\<exists>e t. child (run host_ok manager_ns) = Some (e, t)"
    by (simp add: manager_ns_def eval_defs)
  then obtain e t where c: "child (run host_ok manager_ns) = Some (e, t)"
    by blast
  have p: "pipe_fds host_ok = (3, 4)" by (simp add: host_ok_def)
  from child_never_redirects[OF c] c p show ?thesis by auto
qed

section \<open>Creating the child\<close>

text \<open>
  Claim C2 fails on the code. With the default configuration, which asks for the pid,
  net, ipc, uts, mount and user namespaces, and the Namespaces module registered, the
  supervising process creates the child by a plain \<open>fork\<close>: its calls are exactly those
  listed, with no \<open>clone\<close> and no namespace flag, and the child itself never calls
  \<open>unshare\<close> before it runs the command.
\<close>

theorem run_forks_without_namespaces:
  "namespaces (isolation (mgr_config manager_ns)) = [''pid'', ''net'', ''ipc'', ''uts'', ''mount'', ''user''] \<and>
   parent_trace (run host_ok manager_ns) =
     [Hook H_initialize ''namespaces'', Pipe, Fork, Close 4,
      Hook H_prepareChild ''namespaces'', Waitpid 4243, Read 3, Close 3,
      Hook H_cleanup ''namespaces''] \<and>
   child (run host_ok manager_ns) =
     Some (None,
           [Close 3, Prctl PR_SET_NAME (ArgName ''sandbox-default''),
            Hook H_applyChild ''namespaces'',
            WriteFile ''/proc/self/setgroups'' ''deny'',
            WriteFile ''/proc/self/uid_map'' ''0 1000 1'',
            WriteFile ''/proc/self/gid_map'' ''0 1000 1'',
            Mount ''proc'' ''/proc'' ''proc'' (MS_NOSUID OR MS_NOEXEC OR MS_NODEV) None,
            Mount ''sysfs'' ''/sys'' ''sysfs'' (MS_NOSUID OR MS_NOEXEC OR MS_NODEV) None,
            SetHostname ''sandbox-container'',
            Execute [''/bin/bash'']])"
  by (simp add: manager_ns_def eval_defs)

section \<open>Failure of initialize\<close>

text \<open>
  Claim C4 fails on the code. With the Cgroups module and a module whose \<open>initialize\<close>
  fails, \<open>run\<close> creates the cgroup directory, fails in the second module and returns at
  once: no child is created, but no \<open>cleanup\<close> hook is entered and the directory is
  not removed; the execution order is still pending in the engine.
\<close>

theorem init_failure_skips_cleanup:
  "run host_ok manager_failing =
     \<lparr> result = \<lparr> exitCode = - 1, success = False,
                  errorMessage = ''Failed to initialize modules'', executionTimeMs = None,
                  stdout = [], stderr = [], childPid = - 1 \<rparr>,
       manager = \<lparr> mgr_config = createDefaultConfig, mgr_state = SandboxState.ERROR,
                   modules =
                     [(''cgroups'',
                       Cgroups \<lparr> cg_state = INITIALIZED, cgroupPath = ''/sys/fs/cgroup'',
                                 cgroupName = ''sandbox-sandbox-default-4242'',
                                 cgroupFullPath = ''/sys/fs/cgroup/sandbox-sandbox-default-4242'' \<rparr>),
                      (''dummy'', Other ''dummy'' [] False True True True)],
                   executionOrder = [''cgroups'', ''dummy''],
                   mgr_childPid = - 1, pipeFd = (- 1, - 1) \<rparr>,
       parent_trace =
         [Hook H_initialize ''cgroups'',
          MkdirRecursive ''/sys/fs/cgroup/sandbox-sandbox-default-4242'',
          WriteFile ''/sys/fs/cgroup/sandbox-sandbox-default-4242/memory.max'' ''536870912'',
          WriteFile ''/sys/fs/cgroup/sandbox-sandbox-default-4242/memory.high'' ''429496729'',
          WriteFile ''/sys/fs/cgroup/sandbox-sandbox-default-4242/cpu.max'' ''50000 100000'',
          WriteFile ''/sys/fs/cgroup/sandbox-sandbox-default-4242/pids.max'' ''100'',
          Hook H_initialize ''dummy''],
       child = None \<rparr>"
  by (simp add: manager_failing_def eval_defs)

end
